theory Spec2Isabelle
  imports Complex_Main
begin

section \<open>The outbox of SHA Connect (src/app.py)\<close>

text \<open>
  The outbox is the pandas table \<^verbatim>\<open>st.session_state.outbox_df\<close>. A table is modelled
  as the list of its rows in order, each paired with its index label. The loader
  (\<^verbatim>\<open>load_df_from_file\<close> with its column list) and \<^verbatim>\<open>add_to_outbox\<close> give every
  non-empty outbox the seven columns below, so a row is a record. Recipient, Message,
  Language, Date Created, Type and Status are text; the Attempts cell is modelled with
  the values a JSON file can put there, because \<^verbatim>\<open>process_outbox\<close> converts it with
  \<^verbatim>\<open>int(...)\<close>.
\<close>

subsection \<open>Python values and exceptions\<close>

text \<open>
  An exception raised inside one of the \<^verbatim>\<open>try\<close> blocks of the senders and of
  \<^verbatim>\<open>twilio_configured\<close>, with the text \<^verbatim>\<open>str(e)\<close> is made of: a missing key, or
  whatever the Twilio library raised, given by its message.
\<close>

datatype py_exn =
    KeyError string
  | TwilioException string

text \<open>\<^verbatim>\<open>str(e)\<close>: a KeyError prints the repr of its key, the others their message.\<close>

fun py_str :: "py_exn \<Rightarrow> string" where
  "py_str (KeyError k) = [CHR 0x27] @ k @ [CHR 0x27]"
| "py_str (TwilioException m) = m"

text \<open>
  An exception that leaves \<^verbatim>\<open>process_outbox\<close>, by its class: those of \<^verbatim>\<open>int(...)\<close>
  and the one of a failed write. The message is not modelled.
\<close>

datatype py_error =
    ValueError
  | TypeError
  | OverflowError
  | OSError

text \<open>
  A cell of the Attempts column. \<open>PyInt n\<close> is a number with the integral value \<open>n\<close>
  (an int, or a float such as 3.0, which \<^verbatim>\<open>int\<close> converts to the same number);
  \<open>PyFloat x\<close> a finite float, given by its value; \<open>PyBool\<close> a boolean; \<open>PyStr\<close> a
  string of ASCII text; \<open>PyNaN\<close> the float NaN (what pandas puts where a record lacks the
  key, and for a JSON null); \<open>PyInf\<close> an infinite float; \<open>PyNone\<close> the value None,
  where the table keeps it; \<open>PyOther\<close> a list or a dictionary.
\<close>

datatype cell =
    PyInt int
  | PyFloat real
  | PyBool bool
  | PyStr string
  | PyNaN
  | PyInf
  | PyNone
  | PyOther

text \<open>
  The characters \<^verbatim>\<open>int\<close> strips from the ends of an ASCII string: tab to carriage
  return, and the space.
\<close>

definition is_space :: "char \<Rightarrow> bool" where
  "is_space c = (c \<in> set [CHR '' '', CHR 0x09, CHR 0x0A, CHR 0x0B, CHR 0x0C, CHR 0x0D])"

definition is_digit :: "char \<Rightarrow> bool" where
  "is_digit c = (c \<in> set ''0123456789'')"

definition digit_val :: "char \<Rightarrow> nat" where
  "digit_val c = of_char c - (48::nat)"

definition strip :: "string \<Rightarrow> string" where
  "strip s = rev (dropWhile is_space (rev (dropWhile is_space s)))"

text \<open>
  The digits of a decimal literal after its sign: single underscores may separate
  digits. The caller checks that the first character is a digit.
\<close>

fun py_digits :: "nat \<Rightarrow> string \<Rightarrow> nat option" where
  "py_digits acc [] = Some acc"
| "py_digits acc (c # cs) =
     (if is_digit c then py_digits (10 * acc + digit_val c) cs
      else if c = CHR ''_'' \<and> cs \<noteq> [] \<and> is_digit (hd cs) then py_digits acc cs
      else None)"

text \<open>
  \<^verbatim>\<open>int(s)\<close> for a string, base 10, on ASCII text: surrounding whitespace is
  stripped, one sign is allowed, at least one digit is required, and a literal of more
  than 4300 digits is refused (the default of \<^verbatim>\<open>sys.int_max_str_digits\<close>, which the
  program does not change). \<open>None\<close> stands for the ValueError.
\<close>

definition py_int_str :: "string \<Rightarrow> int option" where
  "py_int_str s =
     (let t = strip s;
          neg = (t \<noteq> [] \<and> hd t = CHR ''-'');
          u = (if t \<noteq> [] \<and> (hd t = CHR ''-'' \<or> hd t = CHR ''+'') then tl t else t)
      in if u = [] \<or> \<not> is_digit (hd u) \<or> 4300 < length (filter is_digit u) then None
         else map_option (\<lambda>n. if neg then - int n else int n) (py_digits 0 u))"

text \<open>
  \<^verbatim>\<open>int(x)\<close> on a cell: the conversion of line 402. A float is truncated towards
  zero.
\<close>

fun py_int :: "cell \<Rightarrow> py_error + int" where
  "py_int (PyInt n) = Inr n"
| "py_int (PyFloat x) = Inr (if 0 \<le> x then \<lfloor>x\<rfloor> else \<lceil>x\<rceil>)"
| "py_int (PyBool b) = Inr (if b then 1 else 0)"
| "py_int (PyStr s) = (case py_int_str s of None \<Rightarrow> Inl ValueError | Some n \<Rightarrow> Inr n)"
| "py_int PyNaN = Inl ValueError"
| "py_int PyInf = Inl OverflowError"
| "py_int PyNone = Inl TypeError"
| "py_int PyOther = Inl TypeError"

text \<open>Text within ASCII, the strings \<open>py_int_str\<close> is a model of \<^verbatim>\<open>int\<close> for.\<close>

definition ascii :: "string \<Rightarrow> bool" where
  "ascii s = list_all (\<lambda>c. (of_char c :: nat) < 128) s"

subsection \<open>Tables\<close>

record outbox_row =
  Recipient :: string
  Message :: string
  Language :: string
  Date_Created :: string
  Type :: string
  Attempts :: cell
  Status :: string

record log_row =
  log_Recipient :: string
  log_Message :: string
  log_Language :: string
  log_Date_Sent :: string
  log_Type :: string
  log_Status :: string

type_synonym outbox = "(nat \<times> outbox_row) list"

text \<open>
  \<^verbatim>\<open>df.at[idx, col] = v\<close>: every row labelled \<open>idx\<close> gets the new cell. (On a label
  that is absent pandas would add a row; \<^verbatim>\<open>process_outbox\<close> only writes to the label
  of the row it is visiting, which is still in the table at that point.)
\<close>

definition df_at :: "nat \<Rightarrow> (outbox_row \<Rightarrow> outbox_row) \<Rightarrow> outbox \<Rightarrow> outbox" where
  "df_at idx f df = map (\<lambda>(i, r). if i = idx then (i, f r) else (i, r)) df"

text \<open>\<^verbatim>\<open>df.drop(idx)\<close>: the rows labelled \<open>idx\<close> leave, the other labels stay as they are.\<close>

definition df_drop :: "nat \<Rightarrow> outbox \<Rightarrow> outbox" where
  "df_drop idx df = filter (\<lambda>(i, r). i \<noteq> idx) df"

text \<open>\<^verbatim>\<open>pd.concat([df, pd.DataFrame([row])], ignore_index=True)\<close>: labels restart at 0.\<close>

definition concat_ignore_index :: "outbox \<Rightarrow> outbox_row \<Rightarrow> outbox" where
  "concat_ignore_index df row = enumerate 0 (map snd df @ [row])"

text \<open>A boolean mask over the rows, \<^verbatim>\<open>df.loc[mask, col] = v\<close> and \<^verbatim>\<open>df[~mask]\<close>.\<close>

definition status_mask :: "string \<Rightarrow> outbox \<Rightarrow> bool list" where
  "status_mask v df = map (\<lambda>(i, r). Status r = v) df"

definition df_loc :: "bool list \<Rightarrow> (outbox_row \<Rightarrow> outbox_row) \<Rightarrow> outbox \<Rightarrow> outbox" where
  "df_loc failed_mask f df =
     map (\<lambda>(b, (i, r)). if b then (i, f r) else (i, r)) (zip failed_mask df)"

definition df_not_mask :: "bool list \<Rightarrow> outbox \<Rightarrow> outbox" where
  "df_not_mask failed_mask df = map snd (filter (\<lambda>(b, ir). \<not> b) (zip failed_mask df))"

definition mask_any :: "bool list \<Rightarrow> bool" where
  "mask_any failed_mask = list_ex (\<lambda>b. b) failed_mask"

definition mask_sum :: "bool list \<Rightarrow> nat" where
  "mask_sum failed_mask = length (filter (\<lambda>b. b) failed_mask)"

subsection \<open>The environment: secrets, the Twilio client, the clock, the disk\<close>

text \<open>
  What the program reads from outside is a parameter. \<open>'w\<close> is the state of the outside
  world, threaded through every call of the Twilio API and every write to disk, so that
  the same request can fail now and succeed later. \<open>secrets\<close> is \<^verbatim>\<open>st.secrets\<close>
  (\<open>None\<close> when reading it raises), \<open>TwilioClient\<close> tells whether the import at the top
  of the file succeeded. The two API calls return the new resource's sid, or the exception
  they raised. \<open>to_json\<close> is \<^verbatim>\<open>df.to_json(path, ...)\<close> and \<open>json_dump\<close> is the
  \<^verbatim>\<open>open(path, "w")\<close> with the \<^verbatim>\<open>json.dump\<close> inside it; each succeeds or raises.
\<close>

datatype table = OutboxTable outbox | LogTable "log_row list"

record 'w env =
  secrets :: "(string \<rightharpoonup> (string \<rightharpoonup> string)) option"
  TwilioClient :: bool
  messages_create :: "string \<times> string \<Rightarrow> string \<Rightarrow> string \<Rightarrow> string \<Rightarrow> 'w \<Rightarrow> (py_exn + string) \<times> 'w"
  calls_create :: "string \<times> string \<Rightarrow> string \<Rightarrow> string \<Rightarrow> string \<Rightarrow> 'w \<Rightarrow> (py_exn + string) \<times> 'w"
  now :: "'w \<Rightarrow> string"
  to_json :: "table \<Rightarrow> string \<Rightarrow> 'w \<Rightarrow> (py_error + unit) \<times> 'w"
  json_dump :: "table \<Rightarrow> string \<Rightarrow> 'w \<Rightarrow> (py_error + unit) \<times> 'w"

subsection \<open>\<^verbatim>\<open>save_df_to_file\<close>\<close>

definition OUTBOX_FILE :: string where
  "OUTBOX_FILE = ''./data/outbox.json''"

definition MESSAGES_FILE :: string where
  "MESSAGES_FILE = ''./data/message_logs.json''"

text \<open>
  Lines 61 to 68: when \<^verbatim>\<open>to_json\<close> raises, the handler writes the file itself, and
  what that raises leaves the function.
\<close>

definition save_df_to_file :: "'w env \<Rightarrow> table \<Rightarrow> string \<Rightarrow> 'w \<Rightarrow> (py_error + unit) \<times> 'w" where
  "save_df_to_file e df path w =
     (case to_json e df path w of
        (Inr u, w') \<Rightarrow> (Inr (), w')
      | (Inl x, w') \<Rightarrow> json_dump e df path w')"

text \<open>\<^verbatim>\<open>st.secrets["twilio"][k]\<close>, which raises on a missing section or key.\<close>

definition twilio_secret :: "'w env \<Rightarrow> string \<Rightarrow> py_exn + string" where
  "twilio_secret e k =
     (case secrets e of
        None \<Rightarrow> Inl (KeyError ''secrets'')
      | Some sec \<Rightarrow>
          (case sec ''twilio'' of
             None \<Rightarrow> Inl (KeyError ''twilio'')
           | Some tw \<Rightarrow> (case tw k of None \<Rightarrow> Inl (KeyError k) | Some v \<Rightarrow> Inr v)))"

text \<open>
  The body of \<^verbatim>\<open>twilio_configured\<close>, an \<^verbatim>\<open>and\<close> chain evaluated left to right; the
  result is read for its truth value only (a non-empty string is true).
\<close>

definition twilio_configured_body :: "'w env \<Rightarrow> py_exn + bool" where
  "twilio_configured_body e =
     (case secrets e of
        None \<Rightarrow> Inl (KeyError ''secrets'')
      | Some sec \<Rightarrow>
          if sec ''twilio'' = None then Inr False
          else (case twilio_secret e ''account_sid'' of
                  Inl x \<Rightarrow> Inl x
                | Inr a \<Rightarrow>
                    if a = [] then Inr False
                    else (case twilio_secret e ''auth_token'' of
                            Inl x \<Rightarrow> Inl x
                          | Inr t \<Rightarrow>
                              if t = [] then Inr False
                              else (case twilio_secret e ''from_number'' of
                                      Inl x \<Rightarrow> Inl x
                                    | Inr f \<Rightarrow> Inr (f \<noteq> [])))))"

text \<open>The bare \<^verbatim>\<open>except\<close> turns every exception into \<^verbatim>\<open>False\<close>.\<close>

definition twilio_configured :: "'w env \<Rightarrow> bool" where
  "twilio_configured e = (case twilio_configured_body e of Inl x \<Rightarrow> False | Inr b \<Rightarrow> b)"

subsection \<open>The Delivery Transport\<close>

text \<open>
  Every Python call may raise, so the two senders return \<open>py_error + (bool \<times> string)\<close>.
  The \<^verbatim>\<open>try\<close> block is a function of its own; the sender applies the handler
  \<^verbatim>\<open>except Exception as e\<close> to what it returns.
\<close>

definition sms_try_block :: "'w env \<Rightarrow> string \<Rightarrow> string \<Rightarrow> 'w \<Rightarrow> (py_exn + bool \<times> string) \<times> 'w" where
  "sms_try_block e to_number message w =
     (case twilio_secret e ''account_sid'' of
        Inl x \<Rightarrow> (Inl x, w)
      | Inr sid \<Rightarrow>
          (case twilio_secret e ''auth_token'' of
             Inl x \<Rightarrow> (Inl x, w)
           | Inr tok \<Rightarrow>
               (case twilio_secret e ''from_number'' of
                  Inl x \<Rightarrow> (Inl x, w)
                | Inr from_number \<Rightarrow>
                    (case messages_create e (sid, tok) message from_number to_number w of
                       (Inl x, w') \<Rightarrow> (Inl x, w')
                     | (Inr msid, w') \<Rightarrow> (Inr (True, ''SMS sent: '' @ msid), w')))))"

definition safe_send_sms :: "'w env \<Rightarrow> string \<Rightarrow> string \<Rightarrow> 'w \<Rightarrow> (py_error + bool \<times> string) \<times> 'w" where
  "safe_send_sms e to_number message w =
     (if \<not> twilio_configured e \<or> \<not> TwilioClient e then (Inr (False, ''Twilio not configured''), w)
      else (case sms_try_block e to_number message w of
              (Inl x, w') \<Rightarrow> (Inr (False, ''Twilio error: '' @ py_str x), w')
            | (Inr r, w') \<Rightarrow> (Inr r, w')))"

definition call_try_block :: "'w env \<Rightarrow> string \<Rightarrow> string \<Rightarrow> 'w \<Rightarrow> (py_exn + bool \<times> string) \<times> 'w" where
  "call_try_block e to_number message w =
     (case twilio_secret e ''account_sid'' of
        Inl x \<Rightarrow> (Inl x, w)
      | Inr sid \<Rightarrow>
          (case twilio_secret e ''auth_token'' of
             Inl x \<Rightarrow> (Inl x, w)
           | Inr tok \<Rightarrow>
               (case twilio_secret e ''from_number'' of
                  Inl x \<Rightarrow> (Inl x, w)
                | Inr from_number \<Rightarrow>
                    (case calls_create e (sid, tok)
                            (''<Response><Say>'' @ message @ ''</Say></Response>'')
                            from_number to_number w of
                       (Inl x, w') \<Rightarrow> (Inl x, w')
                     | (Inr csid, w') \<Rightarrow> (Inr (True, ''Call initiated: '' @ csid), w')))))"

definition safe_make_call :: "'w env \<Rightarrow> string \<Rightarrow> string \<Rightarrow> 'w \<Rightarrow> (py_error + bool \<times> string) \<times> 'w" where
  "safe_make_call e to_number message w =
     (if \<not> twilio_configured e \<or> \<not> TwilioClient e then (Inr (False, ''Twilio not configured''), w)
      else (case call_try_block e to_number message w of
              (Inl x, w') \<Rightarrow> (Inr (False, ''Twilio error: '' @ py_str x), w')
            | (Inr r, w') \<Rightarrow> (Inr r, w')))"

subsection \<open>Session state\<close>

text \<open>
  The part of \<^verbatim>\<open>st.session_state\<close> the outbox code touches, with the state of the
  outside world. \<open>transport_calls\<close> is a history variable the program does not have: one
  entry per call of a sender, with the label and the row the call was made for and the
  outcome that came back. \<^verbatim>\<open>save_df_to_file\<close> copies a table to disk and changes
  nothing in the session tables. The two writes that end \<^verbatim>\<open>process_outbox\<close> are
  modelled, since a write that raises keeps the pass from returning. The writes of
  \<^verbatim>\<open>add_to_outbox\<close> and of the two handlers of the Outbox page come after their last
  change to the session and are left out, as are the \<^verbatim>\<open>st.info\<close>/\<^verbatim>\<open>st.success\<close>
  banners of \<^verbatim>\<open>add_to_outbox\<close> and \<^verbatim>\<open>process_outbox\<close>, which only draw.
\<close>

record 'w session =
  outbox_df :: outbox
  message_logs :: "log_row list"
  world :: 'w
  transport_calls :: "(nat \<times> outbox_row \<times> bool \<times> string) list"

subsection \<open>\<^verbatim>\<open>add_to_outbox\<close>\<close>

definition add_to_outbox ::
  "'w env \<Rightarrow> string \<Rightarrow> string \<Rightarrow> string \<Rightarrow> string \<Rightarrow> 'w session \<Rightarrow> 'w session" where
  "add_to_outbox e recipient message language msg_type s =
     (let row = \<lparr>Recipient = recipient, Message = message, Language = language,
                 Date_Created = now e (world s), Type = msg_type,
                 Attempts = PyInt 0, Status = ''Pending''\<rparr>
      in s\<lparr>outbox_df := concat_ignore_index (outbox_df s) row\<rparr>)"

subsection \<open>\<^verbatim>\<open>process_outbox\<close>\<close>

type_synonym outcome = "nat \<times> bool \<times> string"

text \<open>Lines 415 to 418: the sender is chosen by the row's Type.\<close>

definition send_row :: "'w env \<Rightarrow> outbox_row \<Rightarrow> 'w \<Rightarrow> (py_error + bool \<times> string) \<times> 'w" where
  "send_row e row w =
     (if Type row = ''sms'' then safe_send_sms e (Recipient row) (Message row) w
      else safe_make_call e (Recipient row) (Message row) w)"

text \<open>Lines 420 and 421, run after the sender returns and before its outcome is looked at.\<close>

definition count_attempt :: "nat \<Rightarrow> int \<Rightarrow> 'w session \<Rightarrow> 'w session" where
  "count_attempt idx attempts s =
     s\<lparr>outbox_df := df_at idx (\<lambda>r. r\<lparr>Attempts := PyInt (attempts + 1)\<rparr>) (outbox_df s)\<rparr>"

text \<open>Lines 424 to 438.\<close>

definition on_success ::
  "'w env \<Rightarrow> nat \<Rightarrow> outbox_row \<Rightarrow> string \<Rightarrow> outcome list \<Rightarrow> 'w session \<Rightarrow> outcome list \<times> 'w session" where
  "on_success e idx row info results s =
     (let sent_row = \<lparr>log_Recipient = Recipient row, log_Message = Message row,
                      log_Language = Language row, log_Date_Sent = now e (world s),
                      log_Type = Type row, log_Status = ''Sent''\<rparr>
      in (results @ [(idx, True, info)],
          s\<lparr>message_logs := message_logs s @ [sent_row],
            outbox_df := df_drop idx (outbox_df s)\<rparr>))"

text \<open>Lines 440 to 445.\<close>

definition on_failure ::
  "int \<Rightarrow> nat \<Rightarrow> int \<Rightarrow> string \<Rightarrow> outcome list \<Rightarrow> 'w session \<Rightarrow> outcome list \<times> 'w session" where
  "on_failure max_attempts idx attempts info results s =
     (results @ [(idx, False, info)],
      if attempts + 1 < max_attempts
      then s\<lparr>outbox_df := df_at idx (\<lambda>r. r\<lparr>Status := ''Retrying''\<rparr>) (outbox_df s)\<rparr>
      else s\<lparr>outbox_df := df_at idx (\<lambda>r. r\<lparr>Status := ''Failed''\<rparr>) (outbox_df s)\<rparr>)"

text \<open>
  One turn of the loop of line 401, for the row \<open>(idx, row)\<close> of the copy. An exception
  leaves the loop with the session as it is at that point.
\<close>

definition process_row ::
  "'w env \<Rightarrow> int \<Rightarrow> nat \<times> outbox_row \<Rightarrow> outcome list \<Rightarrow> 'w session
     \<Rightarrow> (py_error + outcome list) \<times> 'w session" where
  "process_row e max_attempts ir results s =
     (case ir of (idx, row) \<Rightarrow>
        (case py_int (Attempts row) of
           Inl x \<Rightarrow> (Inl x, s)
         | Inr attempts \<Rightarrow>
             if attempts \<ge> max_attempts
             then (Inr (results @ [(idx, False, ''max attempts reached'')]),
                   s\<lparr>outbox_df := df_at idx (\<lambda>r. r\<lparr>Status := ''Failed''\<rparr>) (outbox_df s)\<rparr>)
             else (case send_row e row (world s) of
                     (Inl x, w') \<Rightarrow> (Inl x, s\<lparr>world := w'\<rparr>)
                   | (Inr (ok, info), w') \<Rightarrow>
                       (let s1 = count_attempt idx attempts
                                   (s\<lparr>world := w',
                                      transport_calls := transport_calls s @ [(idx, row, ok, info)]\<rparr>);
                            (results', s2) = (if ok then on_success e idx row info results s1
                                              else on_failure max_attempts idx attempts info results s1)
                        in (Inr results', s2)))))"

fun process_rows ::
  "'w env \<Rightarrow> int \<Rightarrow> outbox \<Rightarrow> outcome list \<Rightarrow> 'w session
     \<Rightarrow> (py_error + outcome list) \<times> 'w session" where
  "process_rows e max_attempts [] results s = (Inr results, s)"
| "process_rows e max_attempts (ir # rest) results s =
     (case process_row e max_attempts ir results s of
        (Inl x, s') \<Rightarrow> (Inl x, s')
      | (Inr results', s') \<Rightarrow> process_rows e max_attempts rest results' s')"

text \<open>Lines 447 to 449: the outbox is written first, then the Delivery Log.\<close>

definition save_state :: "'w env \<Rightarrow> 'w session \<Rightarrow> (py_error + unit) \<times> 'w session" where
  "save_state e s =
     (case save_df_to_file e (OutboxTable (outbox_df s)) OUTBOX_FILE (world s) of
        (Inl x, w1) \<Rightarrow> (Inl x, s\<lparr>world := w1\<rparr>)
      | (Inr u, w1) \<Rightarrow>
          (case save_df_to_file e (LogTable (message_logs s)) MESSAGES_FILE w1 of
             (Inl x, w2) \<Rightarrow> (Inl x, s\<lparr>world := w2\<rparr>)
           | (Inr u', w2) \<Rightarrow> (Inr (), s\<lparr>world := w2\<rparr>)))"

text \<open>The loop runs over \<^verbatim>\<open>outbox_df.copy()\<close>: the rows as they are when it starts.\<close>

definition process_outbox ::
  "'w env \<Rightarrow> int \<Rightarrow> 'w session \<Rightarrow> (py_error + outcome list) \<times> 'w session" where
  "process_outbox e max_attempts s =
     (if outbox_df s = [] then (Inr [], s)
      else (case process_rows e max_attempts (outbox_df s) [] s of
              (Inl x, s1) \<Rightarrow> (Inl x, s1)
            | (Inr results, s1) \<Rightarrow>
                (case save_state e s1 of
                   (Inl x, s2) \<Rightarrow> (Inl x, s2)
                 | (Inr u, s2) \<Rightarrow> (Inr results, s2))))"

subsection \<open>The Outbox page: Retry Failed Only, Clear All Failed\<close>

text \<open>What the handler shows: the success banner with its count, or the info banner.\<close>

datatype banner = Success nat | Info

definition retry_failed_only :: "'w session \<Rightarrow> banner \<times> 'w session" where
  "retry_failed_only s =
     (let failed_mask = status_mask ''Failed'' (outbox_df s)
      in if mask_any failed_mask
         then (Success (mask_sum failed_mask),
               s\<lparr>outbox_df :=
                   df_loc failed_mask (\<lambda>r. r\<lparr>Attempts := PyInt 0\<rparr>)
                     (df_loc failed_mask (\<lambda>r. r\<lparr>Status := ''Pending''\<rparr>) (outbox_df s))\<rparr>)
         else (Info, s))"

definition clear_all_failed :: "'w session \<Rightarrow> banner \<times> 'w session" where
  "clear_all_failed s =
     (let failed_mask = status_mask ''Failed'' (outbox_df s)
      in if mask_any failed_mask
         then (Success (mask_sum failed_mask),
               s\<lparr>outbox_df := df_not_mask failed_mask (outbox_df s)\<rparr>)
         else (Info, s))"

subsection \<open>Sequences of operations\<close>

datatype op =
    Enqueue string string string string
  | Drain
  | ResetFailed
  | PurgeFailed

fun apply_op :: "'w env \<Rightarrow> int \<Rightarrow> op \<Rightarrow> 'w session \<Rightarrow> 'w session" where
  "apply_op e max_attempts (Enqueue recipient message language msg_type) s =
     add_to_outbox e recipient message language msg_type s"
| "apply_op e max_attempts Drain s = snd (process_outbox e max_attempts s)"
| "apply_op e max_attempts ResetFailed s = snd (retry_failed_only s)"
| "apply_op e max_attempts PurgeFailed s = snd (clear_all_failed s)"

fun run :: "'w env \<Rightarrow> int \<Rightarrow> op list \<Rightarrow> 'w session \<Rightarrow> 'w session" where
  "run e max_attempts [] s = s"
| "run e max_attempts (x # xs) s = run e max_attempts xs (apply_op e max_attempts x s)"

text \<open>The calls of the senders made between two states.\<close>

definition calls_since :: "'w session \<Rightarrow> 'w session \<Rightarrow> (nat \<times> outbox_row \<times> bool \<times> string) list" where
  "calls_since s s' = drop (length (transport_calls s)) (transport_calls s')"

definition attempted :: "nat \<Rightarrow> (nat \<times> outbox_row \<times> bool \<times> string) list \<Rightarrow> bool" where
  "attempted idx calls = (idx \<in> fst ` set calls)"

text \<open>Every Attempts cell converts: the rows on which line 402 does not raise.\<close>

definition converts :: "cell \<Rightarrow> bool" where
  "converts c = (case py_int c of Inl x \<Rightarrow> False | Inr n \<Rightarrow> True)"

definition integer_like :: "outbox \<Rightarrow> bool" where
  "integer_like df = list_all (\<lambda>(i, r). converts (Attempts r)) df"

text \<open>Every Attempts cell is an integer, as \<^verbatim>\<open>add_to_outbox\<close> and line 421 write it.\<close>

definition integer_cells :: "outbox \<Rightarrow> bool" where
  "integer_cells df = list_all (\<lambda>(i, r). case Attempts r of PyInt n \<Rightarrow> True | _ \<Rightarrow> False) df"

text \<open>Every string among the Attempts cells is ASCII text.\<close>

definition ascii_cells :: "outbox \<Rightarrow> bool" where
  "ascii_cells df =
     list_all (\<lambda>(i, r). case Attempts r of PyStr t \<Rightarrow> ascii t | _ \<Rightarrow> True) df"

subsection \<open>\<^verbatim>\<open>load_df_from_file\<close>, the expected columns\<close>

text \<open>
  Lines 77 to 82 (and 89 to 93) for one expected column \<open>c\<close>: \<open>df\<close> is the table as
  \<^verbatim>\<open>read_json\<close> returned it, a column of cells under each of its column names, and
  \<open>n\<close> the number of its rows. A column the table does not have is added with the
  empty string in every row.
\<close>

definition ensure_column :: "(string \<rightharpoonup> cell list) \<Rightarrow> nat \<Rightarrow> string \<Rightarrow> cell list" where
  "ensure_column df n c = (case df c of None \<Rightarrow> replicate n (PyStr []) | Some col \<Rightarrow> col)"

subsection \<open>Vocabulary of the properties\<close>

text \<open>\<open>log_of row l\<close>: \<open>l\<close> is the Delivery Log entry of \<open>row\<close>, whatever its date.\<close>

definition log_of :: "outbox_row \<Rightarrow> log_row \<Rightarrow> bool" where
  "log_of row l =
     (log_Recipient l = Recipient row \<and> log_Message l = Message row \<and>
      log_Language l = Language row \<and> log_Type l = Type row \<and> log_Status l = ''Sent'')"

text \<open>
  One pass of the loop seen from the rows alone, used in the proofs: \<open>pass m rs post res
  calls logs\<close> relates the rows \<open>rs\<close> of the copy to the rows \<open>post\<close> they leave in the
  table, the outcomes, the sender calls and the log entries, a rule for each way through
  the loop body.
\<close>

inductive pass ::
  "int \<Rightarrow> outbox \<Rightarrow> outbox \<Rightarrow> outcome list \<Rightarrow> (nat \<times> outbox_row \<times> bool \<times> string) list
     \<Rightarrow> log_row list \<Rightarrow> bool" for m where
  finished: "pass m [] [] [] [] []"
| skip: "py_int (Attempts row) = Inr a \<Longrightarrow> m \<le> a \<Longrightarrow> pass m rs post res calls logs \<Longrightarrow>
         pass m ((idx, row) # rs) ((idx, row\<lparr>Status := ''Failed''\<rparr>) # post)
           ((idx, False, ''max attempts reached'') # res) calls logs"
| sent: "py_int (Attempts row) = Inr a \<Longrightarrow> a < m \<Longrightarrow> log_of row l \<Longrightarrow>
         pass m rs post res calls logs \<Longrightarrow>
         pass m ((idx, row) # rs) post ((idx, True, info) # res)
           ((idx, row, True, info) # calls) (l # logs)"
| failed: "py_int (Attempts row) = Inr a \<Longrightarrow> a < m \<Longrightarrow> pass m rs post res calls logs \<Longrightarrow>
         pass m ((idx, row) # rs)
           ((idx, row\<lparr>Attempts := PyInt (a + 1),
                      Status := (if a + 1 < m then ''Retrying'' else ''Failed'')\<rparr>) # post)
           ((idx, False, info) # res) ((idx, row, False, info) # calls) logs"

text \<open>
  The invariant behind the bound on Retrying rows: labels are distinct, every Attempts
  cell is a non-negative integer, and a Retrying row has between 1 and \<open>m - 1\<close> attempts.
\<close>

definition within_budget :: "int \<Rightarrow> outbox_row \<Rightarrow> bool" where
  "within_budget m r =
     (case Attempts r of
        PyInt a \<Rightarrow> 0 \<le> a \<and> (Status r = ''Retrying'' \<longrightarrow> 1 \<le> a \<and> a < m)
      | _ \<Rightarrow> False)"

definition queue_inv :: "int \<Rightarrow> outbox \<Rightarrow> bool" where
  "queue_inv m df = (distinct (map fst df) \<and> list_all (\<lambda>(i, r). within_budget m r) df)"

subsection \<open>Example environments and sessions\<close>

text \<open>
  \<open>scripted\<close> is a configured Twilio account whose answers are scripted: the world is
  the list of answers still to come, and each API call takes the next one (a service
  error when none is left); its disk takes every write. \<open>unconfigured\<close> has no Twilio
  section in its secrets. \<open>read_only_disk\<close> is \<open>scripted\<close> with a disk that refuses
  every write.
\<close>

definition scripted :: "(py_exn + string) list env" where
  "scripted =
     \<lparr>secrets = Some [''twilio'' \<mapsto> [''account_sid'' \<mapsto> ''AC1'', ''auth_token'' \<mapsto> ''t0k'',
                                      ''from_number'' \<mapsto> ''+15550000000'']],
      TwilioClient = True,
      messages_create = (\<lambda>cred body from_number to_number w.
         case w of [] \<Rightarrow> (Inl (TwilioException ''service unavailable''), []) | r # rs \<Rightarrow> (r, rs)),
      calls_create = (\<lambda>cred twiml from_number to_number w.
         case w of [] \<Rightarrow> (Inl (TwilioException ''service unavailable''), []) | r # rs \<Rightarrow> (r, rs)),
      now = (\<lambda>w. ''2024-01-01 09:00:00''),
      to_json = (\<lambda>df path w. (Inr (), w)),
      json_dump = (\<lambda>df path w. (Inr (), w))\<rparr>"

definition unconfigured :: "(py_exn + string) list env" where
  "unconfigured = scripted\<lparr>secrets := Some Map.empty\<rparr>"

definition read_only_disk :: "(py_exn + string) list env" where
  "read_only_disk =
     scripted\<lparr>to_json := (\<lambda>df path w. (Inl OSError, w)),
              json_dump := (\<lambda>df path w. (Inl OSError, w))\<rparr>"

definition demo_row :: "string \<Rightarrow> cell \<Rightarrow> string \<Rightarrow> outbox_row" where
  "demo_row msg_type attempts status =
     \<lparr>Recipient = ''+254700000000'', Message = ''Karibu SHA'', Language = ''Swahili'',
      Date_Created = ''2024-01-01 09:00:00'', Type = msg_type, Attempts = attempts,
      Status = status\<rparr>"

definition demo_session :: "outbox \<Rightarrow> (py_exn + string) list \<Rightarrow> (py_exn + string) list session" where
  "demo_session df w = \<lparr>outbox_df = df, message_logs = [], world = w, transport_calls = []\<rparr>"

section \<open>Lemmas\<close>

subsection \<open>Writes and drops by label\<close>

text \<open>
  With distinct labels a write by label changes one row and a drop removes one row. The
  labels of the outbox are distinct: the loader and \<^verbatim>\<open>add_to_outbox\<close> number the rows
  from 0, and dropping or filtering rows keeps the remaining labels.
\<close>

lemma df_at_absent: "idx \<notin> fst ` set df \<Longrightarrow> df_at idx f df = df"
  by (induction df) (auto simp: df_at_def)

lemma df_at_append: "df_at idx f (xs @ ys) = df_at idx f xs @ df_at idx f ys"
  by (simp add: df_at_def)

lemma df_at_Cons: "df_at idx f ((i, r) # ys) = (if i = idx then (i, f r) else (i, r)) # df_at idx f ys"
  by (simp add: df_at_def)

lemma df_at_mid:
  "distinct (map fst (pre @ (idx, row) # rest)) \<Longrightarrow>
     df_at idx f (pre @ (idx, row) # rest) = pre @ (idx, f row) # rest"
  by (simp add: df_at_append df_at_Cons df_at_absent)

lemma df_drop_absent: "idx \<notin> fst ` set df \<Longrightarrow> df_drop idx df = df"
  by (induction df) (auto simp: df_drop_def)

lemma df_drop_append: "df_drop idx (xs @ ys) = df_drop idx xs @ df_drop idx ys"
  by (simp add: df_drop_def)

lemma df_drop_Cons: "df_drop idx ((i, r) # ys) = (if i = idx then df_drop idx ys else (i, r) # df_drop idx ys)"
  by (simp add: df_drop_def)

lemma df_drop_mid:
  "distinct (map fst (pre @ (idx, row) # rest)) \<Longrightarrow>
     df_drop idx (pre @ (idx, row) # rest) = pre @ rest"
  by (simp add: df_drop_append df_drop_Cons df_drop_absent)

subsection \<open>The senders return\<close>

lemma safe_send_sms_Inr: "\<exists>ok info w'. safe_send_sms e t b w = (Inr (ok, info), w')"
  by (auto simp: safe_send_sms_def split: prod.splits sum.splits)

lemma safe_make_call_Inr: "\<exists>ok info w'. safe_make_call e t b w = (Inr (ok, info), w')"
  by (auto simp: safe_make_call_def split: prod.splits sum.splits)

lemma send_row_Inr: "\<exists>ok info w'. send_row e row w = (Inr (ok, info), w')"
  by (cases "Type row = ''sms''") (simp_all add: send_row_def safe_send_sms_Inr safe_make_call_Inr)

subsection \<open>One turn of the loop\<close>

lemma process_row_cases [consumes 3, case_names skip sent failed]:
  assumes "process_row e m (idx, row) res s = (Inr res', s')"
    and "outbox_df s = pre @ (idx, row) # rest"
    and "distinct (map fst (pre @ (idx, row) # rest))"
  obtains
    (skip) a where "py_int (Attempts row) = Inr a" "m \<le> a"
      "res' = res @ [(idx, False, ''max attempts reached'')]"
      "s' = s\<lparr>outbox_df := pre @ (idx, row\<lparr>Status := ''Failed''\<rparr>) # rest\<rparr>"
  | (sent) a info w' where "py_int (Attempts row) = Inr a" "a < m"
      "send_row e row (world s) = (Inr (True, info), w')"
      "res' = res @ [(idx, True, info)]"
      "outbox_df s' = pre @ rest"
      "transport_calls s' = transport_calls s @ [(idx, row, True, info)]"
      "\<exists>l. log_of row l \<and> message_logs s' = message_logs s @ [l]"
      "world s' = w'"
  | (failed) a info w' where "py_int (Attempts row) = Inr a" "a < m"
      "send_row e row (world s) = (Inr (False, info), w')"
      "res' = res @ [(idx, False, info)]"
      "outbox_df s' = pre @ (idx, row\<lparr>Attempts := PyInt (a + 1),
                      Status := (if a + 1 < m then ''Retrying'' else ''Failed'')\<rparr>) # rest"
      "transport_calls s' = transport_calls s @ [(idx, row, False, info)]"
      "message_logs s' = message_logs s"
      "world s' = w'"
proof -
  from assms(1) obtain a where a: "py_int (Attempts row) = Inr a"
    by (auto simp: process_row_def split: sum.splits)
  show thesis
  proof (cases "m \<le> a")
    case True
    with assms a show thesis
      by (intro skip[of a]) (auto simp: process_row_def df_at_mid)
  next
    case False
    obtain ok info w' where snd: "send_row e row (world s) = (Inr (ok, info), w')"
      using send_row_Inr[of e row "world s"] by blast
    show thesis
    proof (cases ok)
      case True
      with assms a False snd show thesis
        by (intro sent[of a info w'])
          (auto simp: process_row_def count_attempt_def on_success_def df_at_mid df_drop_mid
            log_of_def Let_def)
    next
      case ok: False
      with assms a False snd show thesis
        by (intro failed[of a info w'])
          (auto simp: process_row_def count_attempt_def on_failure_def df_at_mid Let_def)
    qed
  qed
qed

subsection \<open>The loop as a pass\<close>

lemma process_rows_pass:
  "process_rows e m rs res s = (Inr res', s') \<Longrightarrow> outbox_df s = pre @ rs \<Longrightarrow>
   distinct (map fst (pre @ rs)) \<Longrightarrow>
   \<exists>post new calls logs. pass m rs post new calls logs \<and> outbox_df s' = pre @ post \<and>
      res' = res @ new \<and> transport_calls s' = transport_calls s @ calls \<and>
      message_logs s' = message_logs s @ logs"
proof (induction rs arbitrary: pre res s)
  case Nil
  then show ?case by (auto intro: pass.finished)
next
  case (Cons ir rest)
  obtain idx row where ir: "ir = (idx, row)" by (cases ir)
  from Cons.prems(1) obtain res1 s1 where
    step: "process_row e m (idx, row) res s = (Inr res1, s1)" and
    tail: "process_rows e m rest res1 s1 = (Inr res', s')"
    by (auto simp: ir split: prod.splits sum.splits)
  from Cons.prems(2,3) have shape: "outbox_df s = pre @ (idx, row) # rest"
    "distinct (map fst (pre @ (idx, row) # rest))" by (simp_all add: ir)
  from step shape show ?case
  proof (cases rule: process_row_cases)
    case (skip a)
    let ?x = "(idx, row\<lparr>Status := ''Failed''\<rparr>)"
    have "outbox_df s1 = (pre @ [?x]) @ rest" using skip by simp
    moreover have "distinct (map fst ((pre @ [?x]) @ rest))" using shape(2) by simp
    ultimately obtain post new calls logs where ih:
      "pass m rest post new calls logs" "outbox_df s' = (pre @ [?x]) @ post"
      "res' = res1 @ new" "transport_calls s' = transport_calls s1 @ calls"
      "message_logs s' = message_logs s1 @ logs"
      using Cons.IH[OF tail] by blast
    have "pass m (ir # rest) (?x # post) ((idx, False, ''max attempts reached'') # new) calls logs"
      unfolding ir by (rule pass.skip[OF skip(1,2) ih(1)])
    moreover have "outbox_df s' = pre @ ?x # post" using ih(2) by simp
    moreover have "res' = res @ (idx, False, ''max attempts reached'') # new"
      using ih(3) skip(3) by simp
    moreover have "transport_calls s' = transport_calls s @ calls" using ih(4) skip(4) by simp
    moreover have "message_logs s' = message_logs s @ logs" using ih(5) skip(4) by simp
    ultimately show ?thesis by blast
  next
    case (sent a info w')
    from sent(7) obtain l where l: "log_of row l" "message_logs s1 = message_logs s @ [l]"
      by blast
    have "outbox_df s1 = pre @ rest" using sent by simp
    moreover have "distinct (map fst (pre @ rest))" using shape(2) by simp
    ultimately obtain post new calls logs where ih:
      "pass m rest post new calls logs" "outbox_df s' = pre @ post"
      "res' = res1 @ new" "transport_calls s' = transport_calls s1 @ calls"
      "message_logs s' = message_logs s1 @ logs"
      using Cons.IH[OF tail] by blast
    have "pass m (ir # rest) post ((idx, True, info) # new)
            ((idx, row, True, info) # calls) (l # logs)"
      unfolding ir by (rule pass.sent[OF sent(1,2) l(1) ih(1)])
    moreover have "res' = res @ (idx, True, info) # new" using ih(3) sent(4) by simp
    moreover have "transport_calls s' = transport_calls s @ (idx, row, True, info) # calls"
      using ih(4) sent(6) by simp
    moreover have "message_logs s' = message_logs s @ l # logs" using ih(5) l(2) by simp
    ultimately show ?thesis using ih(2) by blast
  next
    case (failed a info w')
    let ?x = "(idx, row\<lparr>Attempts := PyInt (a + 1),
                      Status := (if a + 1 < m then ''Retrying'' else ''Failed'')\<rparr>)"
    have "outbox_df s1 = (pre @ [?x]) @ rest" using failed by simp
    moreover have "distinct (map fst ((pre @ [?x]) @ rest))" using shape(2) by simp
    ultimately obtain post new calls logs where ih:
      "pass m rest post new calls logs" "outbox_df s' = (pre @ [?x]) @ post"
      "res' = res1 @ new" "transport_calls s' = transport_calls s1 @ calls"
      "message_logs s' = message_logs s1 @ logs"
      using Cons.IH[OF tail] by blast
    have "pass m (ir # rest) (?x # post) ((idx, False, info) # new)
            ((idx, row, False, info) # calls) logs"
      unfolding ir by (rule pass.failed[OF failed(1,2) ih(1)])
    moreover have "outbox_df s' = pre @ ?x # post" using ih(2) by simp
    moreover have "res' = res @ (idx, False, info) # new" using ih(3) failed(4) by simp
    moreover have "transport_calls s' = transport_calls s @ (idx, row, False, info) # calls"
      using ih(4) failed(6) by simp
    moreover have "message_logs s' = message_logs s @ logs" using ih(5) failed(7) by simp
    ultimately show ?thesis by blast
  qed
qed

subsection \<open>When the loop raises\<close>

lemma process_row_Inl:
  "process_row e m (idx, row) res s = (Inl x, s') \<longleftrightarrow> py_int (Attempts row) = Inl x \<and> s' = s"
proof (cases "py_int (Attempts row)")
  case (Inl y)
  then show ?thesis by (auto simp: process_row_def)
next
  case (Inr a)
  obtain ok info w' where "send_row e row (world s) = (Inr (ok, info), w')"
    using send_row_Inr[of e row "world s"] by blast
  with Inr show ?thesis
    by (auto simp: process_row_def Let_def split: prod.splits)
qed

lemma process_rows_Inl:
  "process_rows e m rs res s = (Inl x, s') \<Longrightarrow> \<exists>(i, r) \<in> set rs. py_int (Attempts r) = Inl x"
proof (induction rs arbitrary: res s)
  case Nil
  then show ?case by simp
next
  case (Cons ir rest)
  obtain idx row where ir: "ir = (idx, row)" by (cases ir)
  show ?case
  proof (cases "process_row e m (idx, row) res s")
    case (Pair r s1)
    show ?thesis
    proof (cases r)
      case (Inl y)
      with Pair Cons.prems have "y = x" by (simp add: ir)
      with Pair Inl show ?thesis by (simp add: ir process_row_Inl)
    next
      case (Inr res1)
      with Pair Cons.prems have "process_rows e m rest res1 s1 = (Inl x, s')" by (simp add: ir)
      from Cons.IH[OF this] show ?thesis by auto
    qed
  qed
qed

lemma process_rows_Inr:
  "process_rows e m rs res s = (Inr res', s') \<Longrightarrow> integer_like rs"
proof (induction rs arbitrary: res s)
  case Nil
  then show ?case by (simp add: integer_like_def)
next
  case (Cons ir rest)
  obtain idx row where ir: "ir = (idx, row)" by (cases ir)
  from Cons.prems obtain res1 s1 where
    step: "process_row e m (idx, row) res s = (Inr res1, s1)" and
    tail: "process_rows e m rest res1 s1 = (Inr res', s')"
    by (auto simp: ir split: prod.splits sum.splits)
  from step have "converts (Attempts row)"
    by (auto simp: process_row_def converts_def split: sum.splits)
  with Cons.IH[OF tail] show ?case by (simp add: integer_like_def ir)
qed

lemma process_rows_total:
  "integer_like rs \<Longrightarrow> \<exists>res' s'. process_rows e m rs res s = (Inr res', s')"
proof (induction rs arbitrary: res s)
  case Nil
  then show ?case by simp
next
  case (Cons ir rest)
  obtain idx row where ir: "ir = (idx, row)" by (cases ir)
  from Cons.prems have c: "converts (Attempts row)" and rest: "integer_like rest"
    by (simp_all add: integer_like_def ir)
  obtain r s1 where step: "process_row e m (idx, row) res s = (r, s1)" by fastforce
  have "\<exists>res1. r = Inr res1"
  proof (cases r)
    case (Inl x)
    with step c show ?thesis by (auto simp: process_row_Inl converts_def)
  qed simp
  then obtain res1 where "r = Inr res1" ..
  with step Cons.IH[OF rest, of res1 s1] show ?case by (simp add: ir)
qed

subsection \<open>Facts about passes\<close>

lemma save_state_world: "save_state e s = (r, s') \<Longrightarrow> \<exists>w. s' = s\<lparr>world := w\<rparr>"
  by (auto simp: save_state_def split: prod.splits sum.splits)

lemma process_outbox_returns:
  assumes "process_outbox e m s = (Inr res, s')" and "outbox_df s \<noteq> []"
  shows "\<exists>s1 w. process_rows e m (outbox_df s) [] s = (Inr res, s1) \<and>
           save_state e s1 = (Inr (), s') \<and> s' = s1\<lparr>world := w\<rparr>"
proof -
  from assms obtain s1 where
    loop: "process_rows e m (outbox_df s) [] s = (Inr res, s1)" and
    save: "save_state e s1 = (Inr (), s')"
    by (auto simp: process_outbox_def split: prod.splits sum.splits)
  from save_state_world[OF save] loop save show ?thesis by blast
qed

lemma process_outbox_state:
  assumes "process_rows e m (outbox_df s) [] s = (Inr res, s1)" and "outbox_df s \<noteq> []"
  shows "\<exists>w. snd (process_outbox e m s) = s1\<lparr>world := w\<rparr>"
proof -
  obtain r s2 where save: "save_state e s1 = (r, s2)" by fastforce
  from save_state_world[OF save] obtain w where "s2 = s1\<lparr>world := w\<rparr>" ..
  with assms save show ?thesis
    by (cases r) (auto simp: process_outbox_def)
qed

lemma process_outbox_pass:
  assumes "process_outbox e m s = (Inr res, s')" and "distinct (map fst (outbox_df s))"
  shows "\<exists>calls logs. pass m (outbox_df s) (outbox_df s') res calls logs \<and>
           transport_calls s' = transport_calls s @ calls \<and>
           message_logs s' = message_logs s @ logs"
proof (cases "outbox_df s = []")
  case True
  with assms(1) show ?thesis by (auto simp: process_outbox_def intro: pass.finished)
next
  case False
  from process_outbox_returns[OF assms(1) False] obtain s1 w where
    loop: "process_rows e m (outbox_df s) [] s = (Inr res, s1)" and s': "s' = s1\<lparr>world := w\<rparr>"
    by blast
  from process_rows_pass[OF loop, of "[]"] assms(2) show ?thesis by (auto simp: s')
qed

lemma process_outbox_after:
  assumes "integer_like (outbox_df s)" and "distinct (map fst (outbox_df s))"
  shows "\<exists>res calls logs.
           pass m (outbox_df s) (outbox_df (snd (process_outbox e m s))) res calls logs \<and>
           transport_calls (snd (process_outbox e m s)) = transport_calls s @ calls \<and>
           message_logs (snd (process_outbox e m s)) = message_logs s @ logs"
proof (cases "outbox_df s = []")
  case True
  then show ?thesis by (auto simp: process_outbox_def intro: pass.finished)
next
  case False
  from process_rows_total[OF assms(1), of e m "[]" s] obtain res s1 where
    loop: "process_rows e m (outbox_df s) [] s = (Inr res, s1)" by blast
  from process_outbox_state[OF loop False] obtain w where
    st: "snd (process_outbox e m s) = s1\<lparr>world := w\<rparr>" ..
  from process_rows_pass[OF loop, of "[]"] assms(2) show ?thesis by (auto simp: st)
qed

lemma calls_since_append: "transport_calls s' = transport_calls s @ calls \<Longrightarrow> calls_since s s' = calls"
  by (simp add: calls_since_def)

lemma pass_call_in:
  "pass m rs post res calls logs \<Longrightarrow> (idx, row, ok, info) \<in> set calls \<Longrightarrow>
     (idx, row) \<in> set rs \<and> (\<exists>a. py_int (Attempts row) = Inr a \<and> a < m)"
  by (induction rule: pass.induct) auto

lemma pass_post_in:
  "pass m rs post res calls logs \<Longrightarrow> (idx, row') \<in> set post \<Longrightarrow> \<exists>row. (idx, row) \<in> set rs"
  by (induction rule: pass.induct) auto

lemma fresh_label: "idx \<notin> fst ` set rs \<longleftrightarrow> (\<forall>r. (idx, r) \<notin> set rs)"
  by force

lemma pass_distinct:
  "pass m rs post res calls logs \<Longrightarrow> distinct (map fst rs) \<Longrightarrow>
     distinct (map fst post) \<and> distinct (map fst calls)"
proof (induction rule: pass.induct)
  case finished
  then show ?case by simp
next
  case (skip row a rs post res calls logs idx)
  then show ?case by (auto simp: fresh_label dest: pass_post_in)
next
  case (sent row a l rs post res calls logs idx info)
  then show ?case by (auto simp: fresh_label dest: pass_call_in)
next
  case (failed row a rs post res calls logs idx info)
  then show ?case by (auto simp: fresh_label dest: pass_post_in pass_call_in)
qed

lemma pass_integer_like: "pass m rs post res calls logs \<Longrightarrow> integer_like post"
  by (induction rule: pass.induct) (auto simp: integer_like_def converts_def)

lemma pass_skipped:
  "pass m rs post res calls logs \<Longrightarrow> (idx, row) \<in> set rs \<Longrightarrow> distinct (map fst rs) \<Longrightarrow>
   py_int (Attempts row) = Inr a \<Longrightarrow> m \<le> a \<Longrightarrow>
     (idx, row\<lparr>Status := ''Failed''\<rparr>) \<in> set post \<and>
     (idx, False, ''max attempts reached'') \<in> set res \<and> (\<forall>r ok info. (idx, r, ok, info) \<notin> set calls)"
proof (induction rule: pass.induct)
  case finished
  then show ?case by simp
next
  case (skip row' a' rs post res calls logs idx')
  then show ?case by (auto simp: fresh_label dest: pass_call_in)
next
  case (sent row' a' l rs post res calls logs idx' info)
  then show ?case by (auto simp: fresh_label dest: pass_call_in)
next
  case (failed row' a' rs post res calls logs idx' info)
  then show ?case by (auto simp: fresh_label dest: pass_call_in)
qed

lemma pass_failed:
  "pass m rs post res calls logs \<Longrightarrow> (idx, row, False, info) \<in> set calls \<Longrightarrow>
     (idx, False, info) \<in> set res \<and>
     (\<exists>a. py_int (Attempts row) = Inr a \<and> a < m \<and>
          (idx, row\<lparr>Attempts := PyInt (a + 1),
                     Status := (if a + 1 < m then ''Retrying'' else ''Failed'')\<rparr>) \<in> set post)"
proof (induction rule: pass.induct)
  case finished
  then show ?case by simp
next
  case (skip row' a' rs post res calls logs idx')
  then show ?case by (simp split del: if_split, blast?)
next
  case (sent row' a' l rs post res calls logs idx' info')
  then show ?case by (simp split del: if_split, blast?)
next
  case (failed row' a' rs post res calls logs idx' info')
  show ?case
  proof (cases "(idx, row, False, info) \<in> set calls")
    case True
    from failed.IH[OF this] show ?thesis by (simp split del: if_split, blast?)
  next
    case False
    with failed.prems have "idx = idx'" "row = row'" "info = info'" by auto
    with failed.hyps(1,2) show ?thesis by (simp split del: if_split, blast?)
  qed
qed

lemma pass_sent:
  "pass m rs post res calls logs \<Longrightarrow> distinct (map fst rs) \<Longrightarrow>
   (idx, row, True, info) \<in> set calls \<Longrightarrow>
     (idx, True, info) \<in> set res \<and> (\<forall>r. (idx, r) \<notin> set post)"
proof (induction rule: pass.induct)
  case finished
  then show ?case by simp
next
  case (skip row' a' rs post res calls logs idx')
  then show ?case by (auto simp: fresh_label dest: pass_call_in)
next
  case (sent row' a' l rs post res calls logs idx' info)
  then show ?case by (auto simp: fresh_label dest: pass_call_in pass_post_in)
next
  case (failed row' a' rs post res calls logs idx' info)
  then show ?case by (auto simp: fresh_label dest: pass_call_in)
qed

lemma pass_kept:
  "pass m rs post res calls logs \<Longrightarrow> (idx, row) \<in> set rs \<Longrightarrow>
     (\<exists>r. (idx, r) \<in> set post) \<or> (\<exists>info. (idx, row, True, info) \<in> set calls)"
  by (induction rule: pass.induct) auto

lemma pass_logs:
  "pass m rs post res calls logs \<Longrightarrow>
     list_all2 (\<lambda>(idx, row, ok, info) l. log_of row l)
       (filter (\<lambda>(idx, row, ok, info). ok) calls) logs"
  by (induction rule: pass.induct) auto

lemma pass_attempts:
  "pass m rs post res calls logs \<Longrightarrow> distinct (map fst rs) \<Longrightarrow> (idx, row') \<in> set post \<Longrightarrow>
     \<exists>row a. (idx, row) \<in> set rs \<and> py_int (Attempts row) = Inr a \<and>
        ((\<exists>r ok info. (idx, r, ok, info) \<in> set calls) \<longrightarrow> Attempts row' = PyInt (a + 1)) \<and>
        ((\<forall>r ok info. (idx, r, ok, info) \<notin> set calls) \<longrightarrow> Attempts row' = Attempts row)"
proof (induction rule: pass.induct)
  case finished
  then show ?case by simp
next
  case (skip row1 a' rs post res calls logs idx')
  show ?case
  proof (cases "(idx, row') \<in> set post")
    case True
    from skip.prems(1) True have neq: "idx \<noteq> idx'"
      using pass_post_in[OF skip.hyps(3)] by (auto simp: fresh_label)
    from skip.IH[OF _ True] skip.prems(1) neq show ?thesis by auto
  next
    case False
    with skip.prems have eq: "idx = idx'" "row' = row1\<lparr>Status := ''Failed''\<rparr>" by auto
    from skip.prems(1) have "\<forall>r ok info. (idx', r, ok, info) \<notin> set calls"
      using pass_call_in[OF skip.hyps(3)] by (simp add: fresh_label) blast
    with eq skip.hyps(1) show ?thesis by auto
  qed
next
  case (sent row1 a' l rs post res calls logs idx' info')
  from sent.prems have neq: "idx \<noteq> idx'"
    using pass_post_in[OF sent.hyps(4)] by (auto simp: fresh_label)
  from sent.IH[OF _ sent.prems(2)] sent.prems(1) neq show ?case by auto
next
  case (failed row1 a' rs post res calls logs idx' info')
  show ?case
  proof (cases "(idx, row') \<in> set post")
    case True
    from failed.prems(1) True have neq: "idx \<noteq> idx'"
      using pass_post_in[OF failed.hyps(3)] by (auto simp: fresh_label)
    from failed.IH[OF _ True] failed.prems(1) neq show ?thesis by auto
  next
    case False
    with failed.prems have eq: "idx = idx'" "Attempts row' = PyInt (a' + 1)" by auto
    have "(idx, row1) \<in> set ((idx', row1) # rs)" using eq by simp
    moreover have "(idx, row1, False, info') \<in> set ((idx', row1, False, info') # calls)"
      using eq by simp
    ultimately show ?thesis using failed.hyps(1) eq(2) by blast
  qed
qed

subsection \<open>Configuration, and the senders in the example environments\<close>

lemma twilio_configured_iff:
  "twilio_configured e \<longleftrightarrow>
     (\<exists>sec tw a t f. secrets e = Some sec \<and> sec ''twilio'' = Some tw \<and>
        tw ''account_sid'' = Some a \<and> tw ''auth_token'' = Some t \<and> tw ''from_number'' = Some f \<and>
        a \<noteq> [] \<and> t \<noteq> [] \<and> f \<noteq> [])"
  by (auto simp: twilio_configured_def twilio_configured_body_def twilio_secret_def
      split: option.splits sum.splits)

lemma twilio_configured_scripted: "twilio_configured scripted"
  by (simp add: twilio_configured_iff scripted_def)

lemma twilio_configured_unconfigured: "\<not> twilio_configured unconfigured"
  by (simp add: twilio_configured_iff unconfigured_def scripted_def)

lemma twilio_secret_scripted:
  "twilio_secret scripted ''account_sid'' = Inr ''AC1''"
  "twilio_secret scripted ''auth_token'' = Inr ''t0k''"
  "twilio_secret scripted ''from_number'' = Inr ''+15550000000''"
  by (simp_all add: twilio_secret_def scripted_def)

lemma safe_send_sms_scripted:
  "safe_send_sms scripted t b (r # w) =
     (case r of Inl x \<Rightarrow> (Inr (False, ''Twilio error: '' @ py_str x), w)
              | Inr sid \<Rightarrow> (Inr (True, ''SMS sent: '' @ sid), w))"
  by (simp add: safe_send_sms_def twilio_configured_scripted sms_try_block_def
      twilio_secret_scripted split: sum.splits) (simp add: scripted_def)

lemma save_state_scripted: "save_state scripted s = (Inr (), s)"
  by (simp add: save_state_def save_df_to_file_def scripted_def)

lemma safe_send_sms_unconfigured:
  "safe_send_sms unconfigured t b w = (Inr (False, ''Twilio not configured''), w)"
  by (simp add: safe_send_sms_def twilio_configured_unconfigured)

subsection \<open>Masks over the Status column\<close>

lemma df_loc_reset:
  "df_loc (status_mask ''Failed'' df) (\<lambda>r. r\<lparr>Attempts := PyInt 0\<rparr>)
     (df_loc (status_mask ''Failed'' df) (\<lambda>r. r\<lparr>Status := ''Pending''\<rparr>) df) =
   map (\<lambda>(i, r). if Status r = ''Failed''
                   then (i, r\<lparr>Status := ''Pending'', Attempts := PyInt 0\<rparr>) else (i, r)) df"
  by (induction df) (auto simp: df_loc_def status_mask_def)

lemma df_not_mask_status_mask:
  "df_not_mask (status_mask v df) df = filter (\<lambda>(i, r). Status r \<noteq> v) df"
  by (induction df) (auto simp: df_not_mask_def status_mask_def)

lemma mask_any_status_mask:
  "mask_any (status_mask v df) \<longleftrightarrow> filter (\<lambda>(i, r). Status r = v) df \<noteq> []"
  by (induction df) (auto simp: mask_any_def status_mask_def)

lemma mask_sum_status_mask:
  "mask_sum (status_mask v df) = length (filter (\<lambda>(i, r). Status r = v) df)"
  by (induction df) (auto simp: mask_sum_def status_mask_def)

lemma none_failed_map:
  "filter (\<lambda>(i, r). Status r = v) df = [] \<Longrightarrow>
     map (\<lambda>(i, r). if Status r = v then (i, f r) else (i, r)) df = df"
  by (induction df) (auto split: if_splits)

lemma none_failed_filter:
  "filter (\<lambda>(i, r). Status r = v) df = [] \<Longrightarrow> filter (\<lambda>(i, r). Status r \<noteq> v) df = df"
  by (induction df) (auto split: if_splits)

section \<open>The claims\<close>

subsection \<open>The Outbox page and the senders\<close>

text \<open>
  C6. \<^verbatim>\<open>Retry Failed Only\<close> (resetFailed) rewrites exactly the rows whose Status is
  Failed, to Status Pending and Attempts 0, leaves every other row as it is and in place,
  and its banner counts the rows that were Failed; with no Failed row it shows the info
  banner and changes nothing.
\<close>

theorem retry_failed_only_reopens_failed:
  "retry_failed_only s =
     (let failed = filter (\<lambda>(i, r). Status r = ''Failed'') (outbox_df s)
      in (if failed = [] then Info else Success (length failed),
          s\<lparr>outbox_df :=
              map (\<lambda>(i, r). if Status r = ''Failed''
                              then (i, r\<lparr>Status := ''Pending'', Attempts := PyInt 0\<rparr>)
                              else (i, r)) (outbox_df s)\<rparr>))"
  by (simp add: retry_failed_only_def Let_def mask_any_status_mask mask_sum_status_mask
      df_loc_reset none_failed_map)

theorem retry_failed_only_reopens_failed_witness:
  "retry_failed_only
     (demo_session [(0, demo_row ''sms'' (PyInt 3) ''Failed''),
                    (2, demo_row ''voice'' (PyInt 1) ''Retrying'')] []) =
   (Success 1,
    demo_session [(0, demo_row ''sms'' (PyInt 0) ''Pending''),
                  (2, demo_row ''voice'' (PyInt 1) ''Retrying'')] [])"
  using retry_failed_only_reopens_failed
          [of "demo_session [(0, demo_row ''sms'' (PyInt 3) ''Failed''),
                             (2, demo_row ''voice'' (PyInt 1) ''Retrying'')] []"]
  by (simp add: demo_session_def demo_row_def)

text \<open>
  C7. \<^verbatim>\<open>Clear All Failed\<close> (purgeFailed) keeps exactly the rows whose Status is not
  Failed, in their order and under their labels, leaves the Delivery Log as it is, and its
  banner counts the rows it removed.
\<close>

theorem clear_all_failed_removes_failed:
  "clear_all_failed s =
     (let failed = filter (\<lambda>(i, r). Status r = ''Failed'') (outbox_df s)
      in (if failed = [] then Info else Success (length failed),
          s\<lparr>outbox_df := filter (\<lambda>(i, r). Status r \<noteq> ''Failed'') (outbox_df s)\<rparr>)) \<and>
   message_logs (snd (clear_all_failed s)) = message_logs s \<and>
   length (outbox_df s) =
     length (outbox_df (snd (clear_all_failed s))) +
     length (filter (\<lambda>(i, r). Status r = ''Failed'') (outbox_df s))"
proof -
  have split: "length (outbox_df s) =
      length (filter (\<lambda>(i, r). Status r \<noteq> ''Failed'') (outbox_df s)) +
      length (filter (\<lambda>(i, r). Status r = ''Failed'') (outbox_df s))"
    using sum_length_filter_compl[of "\<lambda>(i, r). Status r = ''Failed''" "outbox_df s"]
    by (simp add: case_prod_unfold)
  have eq: "clear_all_failed s =
     (let failed = filter (\<lambda>(i, r). Status r = ''Failed'') (outbox_df s)
      in (if failed = [] then Info else Success (length failed),
          s\<lparr>outbox_df := filter (\<lambda>(i, r). Status r \<noteq> ''Failed'') (outbox_df s)\<rparr>))"
    by (simp add: clear_all_failed_def Let_def mask_any_status_mask mask_sum_status_mask
        df_not_mask_status_mask none_failed_filter)
  show ?thesis using split by (simp add: eq Let_def)
qed

theorem clear_all_failed_removes_failed_witness:
  "clear_all_failed
     (demo_session [(0, demo_row ''sms'' (PyInt 3) ''Failed''),
                    (1, demo_row ''voice'' (PyInt 1) ''Retrying''),
                    (4, demo_row ''sms'' (PyInt 3) ''Failed'')] []) =
   (Success 2, demo_session [(1, demo_row ''voice'' (PyInt 1) ''Retrying'')] [])"
  using clear_all_failed_removes_failed
          [of "demo_session [(0, demo_row ''sms'' (PyInt 3) ''Failed''),
                             (1, demo_row ''voice'' (PyInt 1) ''Retrying''),
                             (4, demo_row ''sms'' (PyInt 3) ''Failed'')] []"]
  by (simp add: demo_session_def demo_row_def)

text \<open>
  C8. The two senders never raise: each returns a pair. Without configuration
  (credentials missing or empty, or the Twilio library absent) the pair is
  \<^verbatim>\<open>(False, "Twilio not configured")\<close>; an exception of the Twilio API comes back as
  \<^verbatim>\<open>(False, "Twilio error: ...")\<close>.
\<close>

theorem transport_never_raises:
  "(\<exists>ok info w'. safe_send_sms e to_number message w = (Inr (ok, info), w')) \<and>
   (\<exists>ok info w'. safe_make_call e to_number message w = (Inr (ok, info), w')) \<and>
   (\<not> twilio_configured e \<or> \<not> TwilioClient e \<longrightarrow>
      safe_send_sms e to_number message w = (Inr (False, ''Twilio not configured''), w) \<and>
      safe_make_call e to_number message w = (Inr (False, ''Twilio not configured''), w)) \<and>
   (\<forall>sid tok frm x w'.
      twilio_configured e \<and> TwilioClient e \<and> twilio_secret e ''account_sid'' = Inr sid \<and>
      twilio_secret e ''auth_token'' = Inr tok \<and> twilio_secret e ''from_number'' = Inr frm \<longrightarrow>
      (messages_create e (sid, tok) message frm to_number w = (Inl x, w') \<longrightarrow>
         safe_send_sms e to_number message w = (Inr (False, ''Twilio error: '' @ py_str x), w')) \<and>
      (calls_create e (sid, tok) (''<Response><Say>'' @ message @ ''</Say></Response>'')
           frm to_number w = (Inl x, w') \<longrightarrow>
         safe_make_call e to_number message w = (Inr (False, ''Twilio error: '' @ py_str x), w'))) \<and>
   (twilio_configured e \<longleftrightarrow>
      (\<exists>sec tw a t f. secrets e = Some sec \<and> sec ''twilio'' = Some tw \<and>
         tw ''account_sid'' = Some a \<and> tw ''auth_token'' = Some t \<and> tw ''from_number'' = Some f \<and>
         a \<noteq> [] \<and> t \<noteq> [] \<and> f \<noteq> []))"
proof -
  have "\<not> twilio_configured e \<or> \<not> TwilioClient e \<longrightarrow>
      safe_send_sms e to_number message w = (Inr (False, ''Twilio not configured''), w) \<and>
      safe_make_call e to_number message w = (Inr (False, ''Twilio not configured''), w)"
    by (auto simp: safe_send_sms_def safe_make_call_def)
  moreover have "\<forall>sid tok frm x w'.
      twilio_configured e \<and> TwilioClient e \<and> twilio_secret e ''account_sid'' = Inr sid \<and>
      twilio_secret e ''auth_token'' = Inr tok \<and> twilio_secret e ''from_number'' = Inr frm \<longrightarrow>
      (messages_create e (sid, tok) message frm to_number w = (Inl x, w') \<longrightarrow>
         safe_send_sms e to_number message w = (Inr (False, ''Twilio error: '' @ py_str x), w')) \<and>
      (calls_create e (sid, tok) (''<Response><Say>'' @ message @ ''</Say></Response>'')
           frm to_number w = (Inl x, w') \<longrightarrow>
         safe_make_call e to_number message w = (Inr (False, ''Twilio error: '' @ py_str x), w'))"
    by (simp add: safe_send_sms_def safe_make_call_def sms_try_block_def call_try_block_def)
  ultimately show ?thesis
    using safe_send_sms_Inr[of e to_number message w] safe_make_call_Inr[of e to_number message w]
      twilio_configured_iff[of e]
    by blast
qed

theorem transport_never_raises_witness:
  "safe_send_sms unconfigured ''+254700000000'' ''Karibu SHA'' [] =
     (Inr (False, ''Twilio not configured''), []) \<and>
   safe_send_sms scripted ''+254700000000'' ''Karibu SHA'' [Inl (TwilioException ''rejected'')] =
     (Inr (False, ''Twilio error: rejected''), [])"
proof -
  have h1: "\<not> twilio_configured unconfigured \<or> \<not> TwilioClient unconfigured"
    by (simp add: twilio_configured_unconfigured)
  have h2: "messages_create scripted (''AC1'', ''t0k'') ''Karibu SHA'' ''+15550000000''
              ''+254700000000'' [Inl (TwilioException ''rejected'')]
            = (Inl (TwilioException ''rejected''), [])"
    by (simp add: scripted_def)
  have h3: "TwilioClient scripted" by (simp add: scripted_def)
  from transport_never_raises[of unconfigured "''+254700000000''" "''Karibu SHA''" "[]"] h1
  have "safe_send_sms unconfigured ''+254700000000'' ''Karibu SHA'' [] =
     (Inr (False, ''Twilio not configured''), [])" by blast
  moreover from transport_never_raises[of scripted "''+254700000000''" "''Karibu SHA''"
      "[Inl (TwilioException ''rejected'')]"] h2 h3 twilio_configured_scripted twilio_secret_scripted
  have "safe_send_sms scripted ''+254700000000'' ''Karibu SHA'' [Inl (TwilioException ''rejected'')] =
     (Inr (False, ''Twilio error: '' @ py_str (TwilioException ''rejected'')), [])" by blast
  ultimately show ?thesis by simp
qed

text \<open>
  C9. On an empty outbox \<^verbatim>\<open>process_outbox\<close> returns the empty outcome list and the
  session as it was: the Delivery Log is unchanged and no sender is called.
\<close>

theorem drain_empty_outbox:
  "process_outbox e max_attempts (s\<lparr>outbox_df := []\<rparr>) = (Inr [], s\<lparr>outbox_df := []\<rparr>)"
  by (simp add: process_outbox_def)

theorem drain_empty_outbox_witness:
  "process_outbox scripted 3 (demo_session [] [Inr ''SM1'']) =
     (Inr [], demo_session [] [Inr ''SM1''])"
  using drain_empty_outbox[of scripted 3 "demo_session [] [Inr ''SM1'']"]
  by (simp add: demo_session_def)

subsection \<open>Drain passes\<close>

lemma pass_attempted:
  "pass m rs post res calls logs \<Longrightarrow> (idx, row) \<in> set rs \<Longrightarrow>
   py_int (Attempts row) = Inr a \<Longrightarrow> a < m \<Longrightarrow> \<exists>ok info. (idx, row, ok, info) \<in> set calls"
  by (induction rule: pass.induct) auto

text \<open>
  C1. In a drain pass that returns, every row for which a sender was called and came back
  with \<^verbatim>\<open>(False, info)\<close> is a row of the outbox that had \<open>attempts < max_attempts\<close>; after
  the pass its Attempts is \<open>attempts + 1\<close> and its Status is Retrying if
  \<open>attempts + 1 < max_attempts\<close> and Failed otherwise, and \<open>(idx, False, info)\<close> is among the
  outcomes.
\<close>

theorem drain_failure_sets_status:
  assumes "process_outbox e m s = (Inr res, s')"
    and "distinct (map fst (outbox_df s))"
    and "(idx, row, False, info) \<in> set (calls_since s s')"
  shows "(idx, row) \<in> set (outbox_df s) \<and> (idx, False, info) \<in> set res \<and>
         (\<exists>a. py_int (Attempts row) = Inr a \<and> a < m \<and>
              map_of (outbox_df s') idx =
                Some (row\<lparr>Attempts := PyInt (a + 1),
                          Status := (if a + 1 < m then ''Retrying'' else ''Failed'')\<rparr>))"
proof -
  from process_outbox_pass[OF assms(1,2)] obtain calls logs where
    p: "pass m (outbox_df s) (outbox_df s') res calls logs" and
    c: "transport_calls s' = transport_calls s @ calls" by blast
  from assms(3) c have mem: "(idx, row, False, info) \<in> set calls"
    by (simp add: calls_since_def)
  from pass_failed[OF p mem] obtain a where
    a: "py_int (Attempts row) = Inr a" "a < m"
       "(idx, row\<lparr>Attempts := PyInt (a + 1),
                  Status := (if a + 1 < m then ''Retrying'' else ''Failed'')\<rparr>) \<in> set (outbox_df s')"
    and r: "(idx, False, info) \<in> set res" by blast
  from pass_distinct[OF p assms(2)] have "distinct (map fst (outbox_df s'))" by simp
  with a(3) have "map_of (outbox_df s') idx =
      Some (row\<lparr>Attempts := PyInt (a + 1),
                Status := (if a + 1 < m then ''Retrying'' else ''Failed'')\<rparr>)"
    by (simp only: map_of_eq_Some_iff)
  with a(1,2) r pass_call_in[OF p mem] show ?thesis by blast
qed

lemma process_row_scripted_sms:
  "py_int a = Inr n \<Longrightarrow> n < m \<Longrightarrow>
   process_row scripted m (idx, demo_row ''sms'' a st) res
     \<lparr>outbox_df = df, message_logs = logs, world = r # w, transport_calls = tc\<rparr> =
   (case r of
      Inl x \<Rightarrow>
        (Inr (res @ [(idx, False, ''Twilio error: '' @ py_str x)]),
         \<lparr>outbox_df = df_at idx (\<lambda>r. r\<lparr>Status := (if n + 1 < m then ''Retrying'' else ''Failed'')\<rparr>)
                        (df_at idx (\<lambda>r. r\<lparr>Attempts := PyInt (n + 1)\<rparr>) df),
          message_logs = logs, world = w,
          transport_calls = tc @ [(idx, demo_row ''sms'' a st, False, ''Twilio error: '' @ py_str x)]\<rparr>)
    | Inr sid \<Rightarrow>
        (Inr (res @ [(idx, True, ''SMS sent: '' @ sid)]),
         \<lparr>outbox_df = df_drop idx (df_at idx (\<lambda>r. r\<lparr>Attempts := PyInt (n + 1)\<rparr>) df),
          message_logs = logs @ [\<lparr>log_Recipient = ''+254700000000'', log_Message = ''Karibu SHA'',
             log_Language = ''Swahili'', log_Date_Sent = ''2024-01-01 09:00:00'',
             log_Type = ''sms'', log_Status = ''Sent''\<rparr>], world = w,
          transport_calls = tc @ [(idx, demo_row ''sms'' a st, True, ''SMS sent: '' @ sid)]\<rparr>))"
  by (cases r)
     (simp_all add: process_row_def send_row_def safe_send_sms_scripted count_attempt_def
        on_success_def on_failure_def demo_row_def scripted_def[THEN arg_cong[of _ _ now]])


lemma drain_one_failure:
  "process_outbox scripted 3
     (demo_session [(0, demo_row ''sms'' (PyInt 0) ''Pending'')] [Inl (TwilioException ''rejected'')]) =
   (Inr [(0, False, ''Twilio error: rejected'')],
    \<lparr>outbox_df = [(0, demo_row ''sms'' (PyInt 1) ''Retrying'')], message_logs = [], world = [],
     transport_calls = [(0, demo_row ''sms'' (PyInt 0) ''Pending'', False, ''Twilio error: rejected'')]\<rparr>)"
  by (simp add: process_outbox_def demo_session_def process_row_scripted_sms df_at_def
      save_state_scripted)
     (simp add: demo_row_def)

theorem drain_failure_sets_status_witness:
  "process_outbox scripted 3
     (demo_session [(0, demo_row ''sms'' (PyInt 0) ''Pending'')] [Inl (TwilioException ''rejected'')]) =
   (Inr [(0, False, ''Twilio error: rejected'')],
    \<lparr>outbox_df = [(0, demo_row ''sms'' (PyInt 1) ''Retrying'')], message_logs = [], world = [],
     transport_calls = [(0, demo_row ''sms'' (PyInt 0) ''Pending'', False, ''Twilio error: rejected'')]\<rparr>) \<and>
   (0, False, ''Twilio error: rejected'') \<in> set [(0::nat, False, ''Twilio error: rejected'')] \<and>
   (\<exists>a. py_int (Attempts (demo_row ''sms'' (PyInt 0) ''Pending'')) = Inr a \<and> a < 3 \<and>
        map_of [(0::nat, demo_row ''sms'' (PyInt 1) ''Retrying'')] 0 =
          Some ((demo_row ''sms'' (PyInt 0) ''Pending'')
                  \<lparr>Attempts := PyInt (a + 1),
                   Status := (if a + 1 < 3 then ''Retrying'' else ''Failed'')\<rparr>))"
proof -
  let ?s = "demo_session [(0, demo_row ''sms'' (PyInt 0) ''Pending'')] [Inl (TwilioException ''rejected'')]"
  let ?s' = "\<lparr>outbox_df = [(0, demo_row ''sms'' (PyInt 1) ''Retrying'')], message_logs = [],
              world = ([] :: (py_exn + string) list),
              transport_calls = [(0, demo_row ''sms'' (PyInt 0) ''Pending'', False, ''Twilio error: rejected'')]\<rparr>"
  have d: "distinct (map fst (outbox_df ?s))" by (simp add: demo_session_def)
  have c: "(0, demo_row ''sms'' (PyInt 0) ''Pending'', False, ''Twilio error: rejected'')
             \<in> set (calls_since ?s ?s')"
    by (simp add: calls_since_def demo_session_def)
  from drain_failure_sets_status[OF drain_one_failure d c] drain_one_failure
  show ?thesis by simp
qed


text \<open>
  C2. In a drain pass that returns, the Delivery Log grows by one entry per successful
  sender call, in order, each carrying the row's Recipient, Message, Language and Type
  with Status Sent; a row is called at most once; a successful row is reported and is no
  longer in the outbox; and a row of the outbox is gone after the pass if and only if its
  call succeeded.
\<close>

theorem drain_success_removes_and_logs:
  assumes "process_outbox e m s = (Inr res, s')"
    and "distinct (map fst (outbox_df s))"
  shows "(\<exists>logs. message_logs s' = message_logs s @ logs \<and>
            list_all2 (\<lambda>(idx, row, ok, info) l. log_of row l)
              (filter (\<lambda>(idx, row, ok, info). ok) (calls_since s s')) logs) \<and>
         distinct (map fst (calls_since s s')) \<and>
         (\<forall>idx row ok info. (idx, row, ok, info) \<in> set (calls_since s s') \<longrightarrow>
            (idx, row) \<in> set (outbox_df s)) \<and>
         (\<forall>idx row info. (idx, row, True, info) \<in> set (calls_since s s') \<longrightarrow>
            (idx, True, info) \<in> set res \<and> idx \<notin> fst ` set (outbox_df s')) \<and>
         (\<forall>idx row. (idx, row) \<in> set (outbox_df s) \<longrightarrow>
            (idx \<notin> fst ` set (outbox_df s') \<longleftrightarrow>
             (\<exists>info. (idx, row, True, info) \<in> set (calls_since s s'))))"
proof -
  from process_outbox_pass[OF assms] obtain calls logs where
    p: "pass m (outbox_df s) (outbox_df s') res calls logs" and
    c: "transport_calls s' = transport_calls s @ calls" and
    l: "message_logs s' = message_logs s @ logs" by blast
  have cs: "calls_since s s' = calls" using c by (simp add: calls_since_def)
  have "\<exists>logs. message_logs s' = message_logs s @ logs \<and>
            list_all2 (\<lambda>(idx, row, ok, info) l. log_of row l)
              (filter (\<lambda>(idx, row, ok, info). ok) calls) logs"
    using l pass_logs[OF p] by blast
  moreover have "distinct (map fst calls)" using pass_distinct[OF p assms(2)] by simp
  moreover have "\<forall>idx row ok info. (idx, row, ok, info) \<in> set calls \<longrightarrow>
            (idx, row) \<in> set (outbox_df s)"
    using pass_call_in[OF p] by blast
  moreover have "\<forall>idx row info. (idx, row, True, info) \<in> set calls \<longrightarrow>
            (idx, True, info) \<in> set res \<and> idx \<notin> fst ` set (outbox_df s')"
    using pass_sent[OF p assms(2)] by (simp add: fresh_label)
  moreover have "\<forall>idx row. (idx, row) \<in> set (outbox_df s) \<longrightarrow>
            (idx \<notin> fst ` set (outbox_df s') \<longleftrightarrow>
             (\<exists>info. (idx, row, True, info) \<in> set calls))"
  proof (intro allI impI iffI)
    fix idx row
    assume "(idx, row) \<in> set (outbox_df s)" "idx \<notin> fst ` set (outbox_df s')"
    with pass_kept[OF p, of idx row] show "\<exists>info. (idx, row, True, info) \<in> set calls"
      by (auto simp: fresh_label)
  next
    fix idx row
    assume "\<exists>info. (idx, row, True, info) \<in> set calls"
    with pass_sent[OF p assms(2)] show "idx \<notin> fst ` set (outbox_df s')"
      by (auto simp: fresh_label)
  qed
  ultimately show ?thesis unfolding cs by blast
qed

lemma drain_one_success:
  "process_outbox scripted 3
     (demo_session [(0, demo_row ''sms'' (PyInt 0) ''Pending'')] [Inr ''SM1'']) =
   (Inr [(0, True, ''SMS sent: SM1'')],
    \<lparr>outbox_df = [],
     message_logs = [\<lparr>log_Recipient = ''+254700000000'', log_Message = ''Karibu SHA'',
             log_Language = ''Swahili'', log_Date_Sent = ''2024-01-01 09:00:00'',
             log_Type = ''sms'', log_Status = ''Sent''\<rparr>],
     world = [],
     transport_calls = [(0, demo_row ''sms'' (PyInt 0) ''Pending'', True, ''SMS sent: SM1'')]\<rparr>)"
  by (simp add: process_outbox_def demo_session_def process_row_scripted_sms df_at_def df_drop_def
      save_state_scripted)

theorem drain_success_removes_and_logs_witness:
  "process_outbox scripted 3
     (demo_session [(0, demo_row ''sms'' (PyInt 0) ''Pending'')] [Inr ''SM1'']) =
   (Inr [(0, True, ''SMS sent: SM1'')],
    \<lparr>outbox_df = [],
     message_logs = [\<lparr>log_Recipient = ''+254700000000'', log_Message = ''Karibu SHA'',
             log_Language = ''Swahili'', log_Date_Sent = ''2024-01-01 09:00:00'',
             log_Type = ''sms'', log_Status = ''Sent''\<rparr>],
     world = [],
     transport_calls = [(0, demo_row ''sms'' (PyInt 0) ''Pending'', True, ''SMS sent: SM1'')]\<rparr>) \<and>
   distinct (map fst [(0::nat, demo_row ''sms'' (PyInt 0) ''Pending'')]) \<and>
   (\<exists>logs. [\<lparr>log_Recipient = ''+254700000000'', log_Message = ''Karibu SHA'',
             log_Language = ''Swahili'', log_Date_Sent = ''2024-01-01 09:00:00'',
             log_Type = ''sms'', log_Status = ''Sent''\<rparr>] = [] @ logs \<and>
      list_all2 (\<lambda>(idx, row, ok, info) l. log_of row l)
        [(0::nat, demo_row ''sms'' (PyInt 0) ''Pending'', True, ''SMS sent: SM1'')] logs)"
proof -
  let ?s = "demo_session [(0, demo_row ''sms'' (PyInt 0) ''Pending'')] [Inr ''SM1'']"
  have d: "distinct (map fst (outbox_df ?s))" by (simp add: demo_session_def)
  from drain_success_removes_and_logs[OF drain_one_success d] drain_one_success
  show ?thesis by (simp add: calls_since_def demo_session_def)
qed

lemma process_outbox_keeps_shape:
  assumes "process_outbox e m s = (Inr res, s')" and "distinct (map fst (outbox_df s))"
  shows "distinct (map fst (outbox_df s')) \<and> integer_like (outbox_df s')"
proof -
  from process_outbox_pass[OF assms] obtain calls logs where
    p: "pass m (outbox_df s) (outbox_df s') res calls logs" by blast
  from pass_distinct[OF p assms(2)] pass_integer_like[OF p] show ?thesis by simp
qed

lemma not_attempted_iff: "\<not> attempted idx calls \<longleftrightarrow> (\<forall>r ok info. (idx, r, ok, info) \<notin> set calls)"
  by (force simp: attempted_def)

lemma already_failed: "Status r = ''Failed'' \<Longrightarrow> r\<lparr>Status := ''Failed''\<rparr> = r"
  by (cases r) auto

lemma drain_keeps_exhausted:
  assumes "distinct (map fst (outbox_df s))" and "integer_like (outbox_df s)"
    and "(idx, row) \<in> set (outbox_df s)" and "Status row = ''Failed''"
    and "py_int (Attempts row) = Inr a" and "m \<le> a"
  shows "\<exists>calls. (idx, row) \<in> set (outbox_df (snd (process_outbox e m s))) \<and>
           distinct (map fst (outbox_df (snd (process_outbox e m s)))) \<and>
           integer_like (outbox_df (snd (process_outbox e m s))) \<and>
           transport_calls (snd (process_outbox e m s)) = transport_calls s @ calls \<and>
           \<not> attempted idx calls"
proof -
  from process_outbox_after[OF assms(2,1), of m e] obtain res calls logs where
    p: "pass m (outbox_df s) (outbox_df (snd (process_outbox e m s))) res calls logs" and
    c: "transport_calls (snd (process_outbox e m s)) = transport_calls s @ calls" by blast
  from pass_skipped[OF p assms(3) assms(1) assms(5) assms(6)] already_failed[OF assms(4)]
  have "(idx, row) \<in> set (outbox_df (snd (process_outbox e m s)))" "\<not> attempted idx calls"
    by (simp_all add: not_attempted_iff)
  with c pass_distinct[OF p assms(1)] pass_integer_like[OF p] show ?thesis by blast
qed

lemma drains_keep_exhausted:
  assumes "distinct (map fst (outbox_df s))" and "integer_like (outbox_df s)"
    and "(idx, row) \<in> set (outbox_df s)" and "Status row = ''Failed''"
    and "py_int (Attempts row) = Inr a" and "m \<le> a"
  shows "\<exists>calls. (idx, row) \<in> set (outbox_df (run e m (replicate n Drain) s)) \<and>
           distinct (map fst (outbox_df (run e m (replicate n Drain) s))) \<and>
           transport_calls (run e m (replicate n Drain) s) = transport_calls s @ calls \<and>
           \<not> attempted idx calls"
  using assms(1,2,3)
proof (induction n arbitrary: s)
  case 0
  then show ?case by (auto simp: attempted_def)
next
  case (Suc n)
  let ?s1 = "snd (process_outbox e m s)"
  from drain_keeps_exhausted[OF Suc.prems(1,2,3) assms(4,5,6), of e] obtain calls1 where
    one: "(idx, row) \<in> set (outbox_df ?s1)" "distinct (map fst (outbox_df ?s1))"
      "integer_like (outbox_df ?s1)" "transport_calls ?s1 = transport_calls s @ calls1"
      "\<not> attempted idx calls1"
    by blast
  from Suc.IH[OF one(2) one(3) one(1)] obtain calls2 where
    rest: "(idx, row) \<in> set (outbox_df (run e m (replicate n Drain) ?s1))"
      "distinct (map fst (outbox_df (run e m (replicate n Drain) ?s1)))"
      "transport_calls (run e m (replicate n Drain) ?s1) = transport_calls ?s1 @ calls2"
      "\<not> attempted idx calls2"
    by blast
  have unfold: "run e m (replicate (Suc n) Drain) s = run e m (replicate n Drain) ?s1" by simp
  have "\<not> attempted idx (calls1 @ calls2)" using one(5) rest(4) by (auto simp: attempted_def)
  moreover have "transport_calls (run e m (replicate (Suc n) Drain) s) =
      transport_calls s @ calls1 @ calls2"
    using rest(3) one(4) unfold by simp
  ultimately show ?case using rest(1,2) unfold by metis
qed

text \<open>
  C3. In a drain pass that returns, a row whose attempts are at least \<open>max_attempts\<close> when
  the pass starts is not sent: the pass records \<^verbatim>\<open>(idx, False, "max attempts reached")\<close>,
  leaves the row with Status Failed and everything else as it was, and calls no sender for
  it. After any number of further passes with the same \<open>max_attempts\<close> the row is still
  there, still Failed, and still no sender has been called for it.
\<close>

theorem drain_exhausted_stays_failed:
  assumes "process_outbox e m s = (Inr res, s1)"
    and "distinct (map fst (outbox_df s))"
    and "(idx, row) \<in> set (outbox_df s)" and "py_int (Attempts row) = Inr a" and "m \<le> a"
  shows "(idx, False, ''max attempts reached'') \<in> set res \<and>
         map_of (outbox_df s1) idx = Some (row\<lparr>Status := ''Failed''\<rparr>) \<and>
         \<not> attempted idx (calls_since s s1) \<and>
         (\<forall>n. map_of (outbox_df (run e m (replicate n Drain) s1)) idx =
                 Some (row\<lparr>Status := ''Failed''\<rparr>) \<and>
               \<not> attempted idx (calls_since s (run e m (replicate n Drain) s1)))"
proof -
  let ?row = "row\<lparr>Status := ''Failed''\<rparr>"
  from process_outbox_pass[OF assms(1,2)] obtain calls logs where
    p: "pass m (outbox_df s) (outbox_df s1) res calls logs" and
    c: "transport_calls s1 = transport_calls s @ calls" by blast
  from pass_skipped[OF p assms(3) assms(2) assms(4) assms(5)] have
    first: "(idx, ?row) \<in> set (outbox_df s1)" "(idx, False, ''max attempts reached'') \<in> set res"
      "\<not> attempted idx calls"
    by (simp_all add: not_attempted_iff)
  from process_outbox_keeps_shape[OF assms(1,2)] have
    sh: "distinct (map fst (outbox_df s1))" "integer_like (outbox_df s1)" by simp_all
  have later: "map_of (outbox_df (run e m (replicate n Drain) s1)) idx = Some ?row \<and>
               \<not> attempted idx (calls_since s (run e m (replicate n Drain) s1))" for n
  proof -
    have st: "Status ?row = ''Failed''" and at: "py_int (Attempts ?row) = Inr a"
      using assms(4) by simp_all
    from drains_keep_exhausted[OF sh first(1) st at assms(5), of e n] obtain calls2 where
      many: "(idx, ?row) \<in> set (outbox_df (run e m (replicate n Drain) s1))"
        "distinct (map fst (outbox_df (run e m (replicate n Drain) s1)))"
        "transport_calls (run e m (replicate n Drain) s1) = transport_calls s1 @ calls2"
        "\<not> attempted idx calls2"
      by blast
    from many(1,2) have "map_of (outbox_df (run e m (replicate n Drain) s1)) idx = Some ?row"
      by (simp only: map_of_eq_Some_iff)
    moreover have "calls_since s (run e m (replicate n Drain) s1) = calls @ calls2"
      using many(3) c by (simp add: calls_since_def)
    ultimately show ?thesis using first(3) many(4) by (auto simp: attempted_def)
  qed
  from later[of 0] have "map_of (outbox_df s1) idx = Some ?row"
    and "\<not> attempted idx (calls_since s s1)" by simp_all
  with first(2) later show ?thesis by blast
qed

theorem drain_exhausted_stays_failed_witness:
  "process_outbox scripted 3
     (demo_session [(0, demo_row ''sms'' (PyInt 3) ''Retrying'')] [Inr ''SM1'']) =
     (Inr [(0, False, ''max attempts reached'')],
      demo_session [(0, demo_row ''sms'' (PyInt 3) ''Failed'')] [Inr ''SM1'']) \<and>
   distinct (map fst (outbox_df (demo_session [(0, demo_row ''sms'' (PyInt 3) ''Retrying'')] [Inr ''SM1'']))) \<and>
   (0, demo_row ''sms'' (PyInt 3) ''Retrying'')
      \<in> set (outbox_df (demo_session [(0, demo_row ''sms'' (PyInt 3) ''Retrying'')] [Inr ''SM1''])) \<and>
   py_int (Attempts (demo_row ''sms'' (PyInt 3) ''Retrying'')) = Inr 3 \<and> (3::int) \<le> 3 \<and>
   map_of (outbox_df (run scripted 3 (replicate 2 Drain)
             (demo_session [(0, demo_row ''sms'' (PyInt 3) ''Failed'')] [Inr ''SM1'']))) 0 =
     Some (demo_row ''sms'' (PyInt 3) ''Failed'') \<and>
   \<not> attempted 0 (calls_since (demo_session [(0, demo_row ''sms'' (PyInt 3) ''Retrying'')] [Inr ''SM1''])
        (run scripted 3 (replicate 2 Drain)
             (demo_session [(0, demo_row ''sms'' (PyInt 3) ''Failed'')] [Inr ''SM1''])))"
proof -
  let ?s = "demo_session [(0, demo_row ''sms'' (PyInt 3) ''Retrying'')] [Inr ''SM1'']"
  let ?s1 = "demo_session [(0, demo_row ''sms'' (PyInt 3) ''Failed'')] [Inr ''SM1'']"
  have h0: "process_outbox scripted 3 ?s = (Inr [(0, False, ''max attempts reached'')], ?s1)"
    by (simp add: process_outbox_def demo_session_def process_row_def demo_row_def df_at_def
        save_state_scripted)
  have h1: "distinct (map fst (outbox_df ?s))" by (simp add: demo_session_def)
  have h3: "(0, demo_row ''sms'' (PyInt 3) ''Retrying'') \<in> set (outbox_df ?s)"
    by (simp add: demo_session_def)
  have h4: "py_int (Attempts (demo_row ''sms'' (PyInt 3) ''Retrying'')) = Inr 3"
    by (simp add: demo_row_def)
  have h5: "(3::int) \<le> 3" by simp
  have r: "(demo_row ''sms'' (PyInt 3) ''Retrying'')\<lparr>Status := ''Failed''\<rparr> =
           demo_row ''sms'' (PyInt 3) ''Failed''" by (simp add: demo_row_def)
  from drain_exhausted_stays_failed[OF h0 h1 h3 h4 h5]
  have "map_of (outbox_df (run scripted 3 (replicate 2 Drain) ?s1)) 0 =
          Some ((demo_row ''sms'' (PyInt 3) ''Retrying'')\<lparr>Status := ''Failed''\<rparr>) \<and>
        \<not> attempted 0 (calls_since ?s (run scripted 3 (replicate 2 Drain) ?s1))"
    by blast
  with h0 h1 h3 h4 show ?thesis unfolding r by simp
qed

lemma pass_attempted_iff:
  assumes "pass m rs post res calls logs" and "distinct (map fst rs)"
    and "(idx, row) \<in> set rs" and "py_int (Attempts row) = Inr a"
  shows "attempted idx calls \<longleftrightarrow> a < m"
proof
  assume "attempted idx calls"
  then obtain r ok info where c: "(idx, r, ok, info) \<in> set calls"
    by (force simp: attempted_def)
  from pass_call_in[OF assms(1) c] obtain a' where
    r: "(idx, r) \<in> set rs" "py_int (Attempts r) = Inr a'" "a' < m" by blast
  from eq_key_imp_eq_value[OF assms(2) r(1) assms(3)] have "r = row" .
  with r assms(4) show "a < m" by simp
next
  assume "a < m"
  from pass_attempted[OF assms(1,3,4) this] show "attempted idx calls"
    by (force simp: attempted_def)
qed

lemma pass_attempts_after:
  assumes "pass m rs post res calls logs" and "distinct (map fst rs)"
    and "(idx, row) \<in> set rs" and "py_int (Attempts row) = Inr a"
    and "(idx, row') \<in> set post"
  shows "Attempts row' = (if a < m then PyInt (a + 1) else Attempts row)"
proof -
  from pass_attempts[OF assms(1,2,5)] obtain r b where
    r: "(idx, r) \<in> set rs" "py_int (Attempts r) = Inr b"
       "(\<exists>r ok info. (idx, r, ok, info) \<in> set calls) \<longrightarrow> Attempts row' = PyInt (b + 1)"
       "(\<forall>r ok info. (idx, r, ok, info) \<notin> set calls) \<longrightarrow> Attempts row' = Attempts r"
    by blast
  from eq_key_imp_eq_value[OF assms(2) r(1) assms(3)] have eq: "r = row" .
  with r(2) assms(4) have b: "b = a" by simp
  show ?thesis
  proof (cases "a < m")
    case True
    from pass_attempted[OF assms(1,3,4) True] r(3) b True show ?thesis by auto
  next
    case False
    with pass_attempted_iff[OF assms(1-4)] have "\<not> attempted idx calls" by simp
    with r(4) eq False show ?thesis by (simp add: not_attempted_iff)
  qed
qed

lemma count_attempt_row:
  assumes "distinct (map fst (outbox_df t))" and "(idx, row) \<in> set (outbox_df t)"
  shows "map_of (outbox_df (count_attempt idx a t)) idx = Some (row\<lparr>Attempts := PyInt (a + 1)\<rparr>)"
proof -
  from assms(2) obtain pre rest where sh: "outbox_df t = pre @ (idx, row) # rest"
    by (auto simp: in_set_conv_decomp)
  with assms(1) have d: "distinct (map fst (pre @ (idx, row) # rest))" by simp
  have "outbox_df (count_attempt idx a t) = pre @ (idx, row\<lparr>Attempts := PyInt (a + 1)\<rparr>) # rest"
    by (simp add: count_attempt_def sh df_at_mid[OF d])
  moreover have "distinct (map fst (pre @ (idx, row\<lparr>Attempts := PyInt (a + 1)\<rparr>) # rest))"
    using d by simp
  ultimately show ?thesis by (simp only: map_of_eq_Some_iff) simp
qed

lemma process_row_attempt:
  assumes "py_int (Attempts row) = Inr a" and "a < m"
    and "send_row e row (world t) = (Inr (ok, info), w')"
  shows "process_row e m (idx, row) res t =
     (let t1 = count_attempt idx a
                 (t\<lparr>world := w', transport_calls := transport_calls t @ [(idx, row, ok, info)]\<rparr>);
          (res', t2) = (if ok then on_success e idx row info res t1
                        else on_failure m idx a info res t1)
      in (Inr res', t2))"
  using assms by (simp add: process_row_def)

lemma integer_like_row:
  "integer_like df \<Longrightarrow> (idx, row) \<in> set df \<Longrightarrow> \<exists>a. py_int (Attempts row) = Inr a"
  by (cases "py_int (Attempts row)") (auto simp: integer_like_def converts_def list_all_iff)

lemma drain_attempts_step:
  assumes "integer_like (outbox_df s)" and "distinct (map fst (outbox_df s))"
    and "(idx, row') \<in> set (outbox_df (snd (process_outbox e m s)))"
  shows "\<exists>row a a'. (idx, row) \<in> set (outbox_df s) \<and> py_int (Attempts row) = Inr a \<and>
           py_int (Attempts row') = Inr a' \<and> a \<le> a'"
proof -
  from process_outbox_after[OF assms(1,2), of m e] obtain res calls logs where
    p: "pass m (outbox_df s) (outbox_df (snd (process_outbox e m s))) res calls logs" by blast
  from pass_attempts[OF p assms(2,3)] obtain row a where
    r: "(idx, row) \<in> set (outbox_df s)" "py_int (Attempts row) = Inr a"
       "(\<exists>r ok info. (idx, r, ok, info) \<in> set calls) \<longrightarrow> Attempts row' = PyInt (a + 1)"
       "(\<forall>r ok info. (idx, r, ok, info) \<notin> set calls) \<longrightarrow> Attempts row' = Attempts row"
    by blast
  show ?thesis
  proof (cases "\<exists>r ok info. (idx, r, ok, info) \<in> set calls")
    case True
    with r(3) have "py_int (Attempts row') = Inr (a + 1)" by simp
    with r(1,2) show ?thesis by fastforce
  next
    case False
    with r(4) have "py_int (Attempts row') = Inr a" using r(2) by simp
    with r(1,2) show ?thesis by fastforce
  qed
qed

lemma drains_attempts_mono:
  assumes "distinct (map fst (outbox_df s))" and "integer_like (outbox_df s)"
    and "(idx, row') \<in> set (outbox_df (run e m (replicate n Drain) s))"
  shows "\<exists>row a a'. (idx, row) \<in> set (outbox_df s) \<and> py_int (Attempts row) = Inr a \<and>
           py_int (Attempts row') = Inr a' \<and> a \<le> a'"
  using assms
proof (induction n arbitrary: s)
  case 0
  then have "(idx, row') \<in> set (outbox_df s)" by simp
  moreover from this 0(2) obtain a where "py_int (Attempts row') = Inr a"
    using integer_like_row by blast
  ultimately show ?case by blast
next
  case (Suc n)
  let ?s1 = "snd (process_outbox e m s)"
  from process_outbox_after[OF Suc.prems(2,1), of m e] obtain res calls logs where
    p: "pass m (outbox_df s) (outbox_df ?s1) res calls logs" by blast
  from pass_distinct[OF p Suc.prems(1)] pass_integer_like[OF p] have
    sh: "distinct (map fst (outbox_df ?s1))" "integer_like (outbox_df ?s1)" by simp_all
  have "(idx, row') \<in> set (outbox_df (run e m (replicate n Drain) ?s1))"
    using Suc.prems(3) by simp
  from Suc.IH[OF sh this] obtain row1 a1 a' where
    r1: "(idx, row1) \<in> set (outbox_df ?s1)" "py_int (Attempts row1) = Inr a1"
        "py_int (Attempts row') = Inr a'" "a1 \<le> a'" by blast
  from drain_attempts_step[OF Suc.prems(2,1) r1(1)] obtain row a where
    "(idx, row) \<in> set (outbox_df s)" "py_int (Attempts row) = Inr a" "a \<le> a1"
    using r1(2) by auto
  with r1(3,4) show ?case by fastforce
qed

lemma drain_returns_attempts_step:
  assumes "process_outbox e m s = (Inr res, s')" and "distinct (map fst (outbox_df s))"
    and "(idx, row') \<in> set (outbox_df s')"
  shows "\<exists>row a a'. (idx, row) \<in> set (outbox_df s) \<and> py_int (Attempts row) = Inr a \<and>
           py_int (Attempts row') = Inr a' \<and> a \<le> a'"
proof -
  from process_outbox_pass[OF assms(1,2)] obtain calls logs where
    p: "pass m (outbox_df s) (outbox_df s') res calls logs" by blast
  from pass_attempts[OF p assms(2,3)] obtain row a where
    r: "(idx, row) \<in> set (outbox_df s)" "py_int (Attempts row) = Inr a"
       "(\<exists>r ok info. (idx, r, ok, info) \<in> set calls) \<longrightarrow> Attempts row' = PyInt (a + 1)"
       "(\<forall>r ok info. (idx, r, ok, info) \<notin> set calls) \<longrightarrow> Attempts row' = Attempts row"
    by blast
  show ?thesis
  proof (cases "\<exists>r ok info. (idx, r, ok, info) \<in> set calls")
    case True
    with r(3) have "py_int (Attempts row') = Inr (a + 1)" by simp
    with r(1,2) show ?thesis by fastforce
  next
    case False
    with r(4) have "py_int (Attempts row') = Inr a" using r(2) by simp
    with r(1,2) show ?thesis by fastforce
  qed
qed

text \<open>
  C4. In a drain pass that returns, for every row with \<open>attempts = a\<close> at its start: a
  sender is called for the row exactly when \<open>a < max_attempts\<close>, and if the row is still
  in the outbox afterwards its Attempts is \<open>a + 1\<close> when it was called and unchanged when
  it was not. The count is written before the outcome is looked at: the success branch and
  the failure branch both start from the state in which the row has \<open>a + 1\<close> (the success
  branch then drops the row). After any number of further passes the attempts of a row
  that is still in the outbox are at least what they were.
\<close>

theorem drain_counts_attempts:
  assumes "process_outbox e m s = (Inr res, s')" and "distinct (map fst (outbox_df s))"
  shows "(\<forall>idx row a. (idx, row) \<in> set (outbox_df s) \<and> py_int (Attempts row) = Inr a \<longrightarrow>
            (attempted idx (calls_since s s') \<longleftrightarrow> a < m) \<and>
            (\<forall>row'. (idx, row') \<in> set (outbox_df s') \<longrightarrow>
               Attempts row' = (if a < m then PyInt (a + 1) else Attempts row))) \<and>
         (\<forall>idx row a ok info w' results.
            (idx, row) \<in> set (outbox_df s) \<and> py_int (Attempts row) = Inr a \<and> a < m \<and>
            send_row e row (world s) = (Inr (ok, info), w') \<longrightarrow>
              (let t = count_attempt idx a
                          (s\<lparr>world := w',
                             transport_calls := transport_calls s @ [(idx, row, ok, info)]\<rparr>)
               in map_of (outbox_df t) idx = Some (row\<lparr>Attempts := PyInt (a + 1)\<rparr>) \<and>
                  process_row e m (idx, row) results s =
                    (let (results', t') = (if ok then on_success e idx row info results t
                                           else on_failure m idx a info results t)
                     in (Inr results', t')))) \<and>
         (\<forall>n idx row'. (idx, row') \<in> set (outbox_df (run e m (replicate n Drain) s')) \<longrightarrow>
            (\<exists>row a a'. (idx, row) \<in> set (outbox_df s) \<and> py_int (Attempts row) = Inr a \<and>
               py_int (Attempts row') = Inr a' \<and> a \<le> a'))"
proof (intro conjI)
  from process_outbox_pass[OF assms] obtain calls logs where
    p: "pass m (outbox_df s) (outbox_df s') res calls logs" and
    c: "transport_calls s' = transport_calls s @ calls" by blast
  have cs: "calls_since s s' = calls" using c by (simp add: calls_since_def)
  show "\<forall>idx row a. (idx, row) \<in> set (outbox_df s) \<and> py_int (Attempts row) = Inr a \<longrightarrow>
            (attempted idx (calls_since s s') \<longleftrightarrow> a < m) \<and>
            (\<forall>row'. (idx, row') \<in> set (outbox_df s') \<longrightarrow>
               Attempts row' = (if a < m then PyInt (a + 1) else Attempts row))"
    unfolding cs using pass_attempted_iff[OF p assms(2)] pass_attempts_after[OF p assms(2)]
    by blast
next
  show "\<forall>idx row a ok info w' results.
            (idx, row) \<in> set (outbox_df s) \<and> py_int (Attempts row) = Inr a \<and> a < m \<and>
            send_row e row (world s) = (Inr (ok, info), w') \<longrightarrow>
              (let t = count_attempt idx a
                          (s\<lparr>world := w',
                             transport_calls := transport_calls s @ [(idx, row, ok, info)]\<rparr>)
               in map_of (outbox_df t) idx = Some (row\<lparr>Attempts := PyInt (a + 1)\<rparr>) \<and>
                  process_row e m (idx, row) results s =
                    (let (results', t') = (if ok then on_success e idx row info results t
                                           else on_failure m idx a info results t)
                     in (Inr results', t')))"
  proof (intro allI impI)
    fix idx row a ok info w' results
    assume h: "(idx, row) \<in> set (outbox_df s) \<and> py_int (Attempts row) = Inr a \<and> a < m \<and>
            send_row e row (world s) = (Inr (ok, info), w')"
    let ?t = "s\<lparr>world := w', transport_calls := transport_calls s @ [(idx, row, ok, info)]\<rparr>"
    have "map_of (outbox_df (count_attempt idx a ?t)) idx = Some (row\<lparr>Attempts := PyInt (a + 1)\<rparr>)"
      using count_attempt_row[of ?t idx row a] assms(2) h by simp
    moreover have "process_row e m (idx, row) results s =
        (let (results', t') = (if ok then on_success e idx row info results (count_attempt idx a ?t)
                               else on_failure m idx a info results (count_attempt idx a ?t))
         in (Inr results', t'))"
      using process_row_attempt[of row a m e s ok info w' idx results] h by (simp add: Let_def)
    ultimately show "let t = count_attempt idx a ?t
               in map_of (outbox_df t) idx = Some (row\<lparr>Attempts := PyInt (a + 1)\<rparr>) \<and>
                  process_row e m (idx, row) results s =
                    (let (results', t') = (if ok then on_success e idx row info results t
                                           else on_failure m idx a info results t)
                     in (Inr results', t'))"
      by (simp add: Let_def)
  qed
next
  from process_outbox_keeps_shape[OF assms] have
    sh: "distinct (map fst (outbox_df s'))" "integer_like (outbox_df s')" by simp_all
  show "\<forall>n idx row'. (idx, row') \<in> set (outbox_df (run e m (replicate n Drain) s')) \<longrightarrow>
            (\<exists>row a a'. (idx, row) \<in> set (outbox_df s) \<and> py_int (Attempts row) = Inr a \<and>
               py_int (Attempts row') = Inr a' \<and> a \<le> a')"
  proof (intro allI impI)
    fix n idx row'
    assume "(idx, row') \<in> set (outbox_df (run e m (replicate n Drain) s'))"
    from drains_attempts_mono[OF sh this] obtain row1 a1 a' where
      r1: "(idx, row1) \<in> set (outbox_df s')" "py_int (Attempts row1) = Inr a1"
          "py_int (Attempts row') = Inr a'" "a1 \<le> a'" by blast
    from drain_returns_attempts_step[OF assms r1(1)] obtain row a where
      "(idx, row) \<in> set (outbox_df s)" "py_int (Attempts row) = Inr a" "a \<le> a1"
      using r1(2) by auto
    with r1(3,4) show "\<exists>row a a'. (idx, row) \<in> set (outbox_df s) \<and> py_int (Attempts row) = Inr a \<and>
               py_int (Attempts row') = Inr a' \<and> a \<le> a'"
      by fastforce
  qed
qed

theorem drain_counts_attempts_witness:
  "process_outbox scripted 3
     (demo_session [(0, demo_row ''sms'' (PyInt 0) ''Pending'')]
        [Inl (TwilioException ''rejected'')]) =
   (Inr [(0, False, ''Twilio error: rejected'')],
    \<lparr>outbox_df = [(0, demo_row ''sms'' (PyInt 1) ''Retrying'')], message_logs = [], world = [],
     transport_calls = [(0, demo_row ''sms'' (PyInt 0) ''Pending'', False, ''Twilio error: rejected'')]\<rparr>) \<and>
   distinct (map fst (outbox_df (demo_session [(0, demo_row ''sms'' (PyInt 0) ''Pending'')]
                                   [Inl (TwilioException ''rejected'')]))) \<and>
   (0, demo_row ''sms'' (PyInt 0) ''Pending'')
      \<in> set (outbox_df (demo_session [(0, demo_row ''sms'' (PyInt 0) ''Pending'')]
                           [Inl (TwilioException ''rejected'')])) \<and>
   py_int (Attempts (demo_row ''sms'' (PyInt 0) ''Pending'')) = Inr 0 \<and>
   attempted 0 (calls_since
      (demo_session [(0, demo_row ''sms'' (PyInt 0) ''Pending'')] [Inl (TwilioException ''rejected'')])
      (snd (process_outbox scripted 3
             (demo_session [(0, demo_row ''sms'' (PyInt 0) ''Pending'')]
                [Inl (TwilioException ''rejected'')])))) \<and>
   map (\<lambda>(i, r). Attempts r)
     (outbox_df (snd (process_outbox scripted 3
             (demo_session [(0, demo_row ''sms'' (PyInt 0) ''Pending'')]
                [Inl (TwilioException ''rejected'')])))) = [PyInt 1]"
proof -
  let ?s = "demo_session [(0, demo_row ''sms'' (PyInt 0) ''Pending'')]
              [Inl (TwilioException ''rejected'')]"
  let ?s' = "\<lparr>outbox_df = [(0, demo_row ''sms'' (PyInt 1) ''Retrying'')], message_logs = [],
              world = ([] :: (py_exn + string) list),
              transport_calls = [(0, demo_row ''sms'' (PyInt 0) ''Pending'', False, ''Twilio error: rejected'')]\<rparr>"
  have h1: "distinct (map fst (outbox_df ?s))" by (simp add: demo_session_def)
  have m: "(0, demo_row ''sms'' (PyInt 0) ''Pending'') \<in> set (outbox_df ?s) \<and>
           py_int (Attempts (demo_row ''sms'' (PyInt 0) ''Pending'')) = Inr 0"
    by (simp add: demo_session_def demo_row_def)
  have in': "(0, demo_row ''sms'' (PyInt 1) ''Retrying'') \<in> set (outbox_df ?s')" by simp
  from drain_counts_attempts[OF drain_one_failure h1] m have
    "(attempted 0 (calls_since ?s ?s') \<longleftrightarrow> (0::int) < 3) \<and>
     (\<forall>row'. (0, row') \<in> set (outbox_df ?s') \<longrightarrow>
        Attempts row' = (if (0::int) < 3 then PyInt (0 + 1)
                         else Attempts (demo_row ''sms'' (PyInt 0) ''Pending'')))"
    by blast
  with in' have "attempted 0 (calls_since ?s ?s')"
    and "Attempts (demo_row ''sms'' (PyInt 1) ''Retrying'') = PyInt 1"
    by auto
  then show ?thesis using h1 m drain_one_failure by simp
qed

subsection \<open>When a pass returns and when it raises\<close>

lemma set_strip: "set (strip s) \<subseteq> set s"
proof -
  have "set (strip s) = set (dropWhile is_space (rev (dropWhile is_space s)))"
    by (simp add: strip_def)
  also have "\<dots> \<subseteq> set (rev (dropWhile is_space s))" by (auto dest: set_dropWhileD)
  also have "\<dots> \<subseteq> set s" by (auto dest: set_dropWhileD)
  finally show ?thesis .
qed

lemma py_int_str_no_digit: "\<forall>c \<in> set str. \<not> is_digit c \<Longrightarrow> py_int_str str = None"
proof -
  assume nd: "\<forall>c \<in> set str. \<not> is_digit c"
  have t: "\<forall>c \<in> set (strip str). \<not> is_digit c" using nd set_strip[of str] by blast
  show ?thesis
  proof (cases "strip str")
    case Nil
    then show ?thesis by (simp add: py_int_str_def)
  next
    case (Cons c cs)
    with t have c: "\<not> is_digit c" and cs: "\<forall>d \<in> set cs. \<not> is_digit d" by simp_all
    from cs have "cs = [] \<or> \<not> is_digit (hd cs)" by (cases cs) simp_all
    with c Cons show ?thesis by (auto simp: py_int_str_def Let_def)
  qed
qed

lemma integer_cells_like: "integer_cells df \<Longrightarrow> integer_like df"
proof -
  have "converts c" if "case c of PyInt n \<Rightarrow> True | _ \<Rightarrow> False" for c
    using that by (cases c) (simp_all add: converts_def)
  then show "integer_cells df \<Longrightarrow> integer_like df"
    by (auto simp: integer_cells_def integer_like_def list_all_iff)
qed

lemma process_outbox_raises:
  assumes "process_outbox e m s = (Inl x, s')"
  shows "(\<exists>i r. (i, r) \<in> set (outbox_df s) \<and> py_int (Attempts r) = Inl x) \<or>
         (\<exists>res s1. process_rows e m (outbox_df s) [] s = (Inr res, s1) \<and>
            save_state e s1 = (Inl x, s'))"
proof -
  from assms have ne: "outbox_df s \<noteq> []" by (auto simp: process_outbox_def)
  obtain r s1 where loop: "process_rows e m (outbox_df s) [] s = (r, s1)" by fastforce
  show ?thesis
  proof (cases r)
    case (Inl y)
    with assms ne loop have "y = x" by (simp add: process_outbox_def)
    with Inl loop process_rows_Inl[of e m "outbox_df s" "[]" s x s1] show ?thesis by auto
  next
    case (Inr res)
    with assms ne loop have "save_state e s1 = (Inl x, s')"
      by (auto simp: process_outbox_def split: prod.splits sum.splits)
    with Inr loop show ?thesis by blast
  qed
qed

lemma process_outbox_converts:
  assumes "process_outbox e m s = (Inr res, s')"
  shows "integer_like (outbox_df s)"
proof (cases "outbox_df s = []")
  case True
  then show ?thesis by (simp add: integer_like_def)
next
  case False
  from process_outbox_returns[OF assms False] obtain s1 where
    "process_rows e m (outbox_df s) [] s = (Inr res, s1)" by blast
  then show ?thesis by (rule process_rows_Inr)
qed

lemma twilio_secret_disk:
  "twilio_secret (e\<lparr>to_json := f, json_dump := g\<rparr>) k = twilio_secret e k"
  by (simp add: twilio_secret_def)

lemma twilio_configured_disk:
  "twilio_configured (e\<lparr>to_json := f, json_dump := g\<rparr>) = twilio_configured e"
  by (simp add: twilio_configured_def twilio_configured_body_def twilio_secret_disk
      cong: option.case_cong sum.case_cong if_cong)

lemma try_blocks_disk:
  "sms_try_block (e\<lparr>to_json := f, json_dump := g\<rparr>) t b w = sms_try_block e t b w"
  "call_try_block (e\<lparr>to_json := f, json_dump := g\<rparr>) t b w = call_try_block e t b w"
  by (simp_all add: sms_try_block_def call_try_block_def twilio_secret_disk
      cong: sum.case_cong)

lemma send_row_disk:
  "send_row (e\<lparr>to_json := f, json_dump := g\<rparr>) row w = send_row e row w"
  by (simp add: send_row_def safe_send_sms_def safe_make_call_def twilio_configured_disk
      try_blocks_disk)

lemma on_success_disk:
  "on_success (e\<lparr>to_json := f, json_dump := g\<rparr>) idx row info res s =
     on_success e idx row info res s"
  by (simp add: on_success_def)

lemma process_row_disk:
  "process_row (e\<lparr>to_json := f, json_dump := g\<rparr>) m ir res s = process_row e m ir res s"
  by (simp add: process_row_def send_row_disk on_success_disk
      cong: prod.case_cong sum.case_cong if_cong)

text \<open>
  C10, the counterexample. The \<^verbatim>\<open>int(...)\<close> conversion is not the only step of
  \<^verbatim>\<open>process_outbox\<close> that can raise: on a disk that refuses writes, an outbox whose
  one row has Attempts 0 is sent and logged, and then the call raises at the write of line
  448 instead of returning its outcome list.
\<close>

theorem drain_write_failure_counterexample:
  "integer_like (outbox_df (demo_session [(0, demo_row ''sms'' (PyInt 0) ''Pending'')] [Inr ''SM1''])) \<and>
   process_outbox read_only_disk 3
     (demo_session [(0, demo_row ''sms'' (PyInt 0) ''Pending'')] [Inr ''SM1'']) =
   (Inl OSError,
    \<lparr>outbox_df = [],
     message_logs = [\<lparr>log_Recipient = ''+254700000000'', log_Message = ''Karibu SHA'',
             log_Language = ''Swahili'', log_Date_Sent = ''2024-01-01 09:00:00'',
             log_Type = ''sms'', log_Status = ''Sent''\<rparr>],
     world = [],
     transport_calls = [(0, demo_row ''sms'' (PyInt 0) ''Pending'', True, ''SMS sent: SM1'')]\<rparr>)"
proof -
  have "integer_like (outbox_df (demo_session [(0, demo_row ''sms'' (PyInt 0) ''Pending'')] [Inr ''SM1'']))"
    by (simp add: integer_like_def converts_def demo_session_def demo_row_def)
  moreover have "save_state read_only_disk t = (Inl OSError, t)" for t :: "(py_exn + string) list session"
    by (simp add: save_state_def save_df_to_file_def read_only_disk_def)
  ultimately show ?thesis
    by (simp add: process_outbox_def demo_session_def read_only_disk_def process_row_disk
        process_row_scripted_sms df_at_def df_drop_def)
qed

text \<open>
  C10, as it holds of the code. \<^verbatim>\<open>process_outbox\<close> returns an outcome list only if every Attempts
  cell converts under \<^verbatim>\<open>int(...)\<close>. It raises in two places only: at the conversion
  of some row's cell inside the loop, and at the two writes after the loop; when every
  cell is an integer the loop completes, and the call returns exactly when both writes
  succeed.
  A row whose Attempts is a string that \<^verbatim>\<open>int\<close> refuses makes the call raise at a
  conversion; the empty string is refused, as is every ASCII string without a digit, and
  the empty string is what the loader puts in every row of an Attempts column that the
  table read from the file does not have.
\<close>

theorem drain_returns_iff_converts_and_saves:
  assumes "ascii_cells (outbox_df s)"
  shows "((\<exists>res s'. process_outbox e m s = (Inr res, s')) \<longrightarrow> integer_like (outbox_df s)) \<and>
   (\<forall>x s'. process_outbox e m s = (Inl x, s') \<longrightarrow>
      (\<exists>i r. (i, r) \<in> set (outbox_df s) \<and> py_int (Attempts r) = Inl x) \<or>
      (\<exists>res s1. process_rows e m (outbox_df s) [] s = (Inr res, s1) \<and>
         save_state e s1 = (Inl x, s'))) \<and>
   (integer_cells (outbox_df s) \<and> outbox_df s \<noteq> [] \<longrightarrow>
      (\<exists>res s1. process_rows e m (outbox_df s) [] s = (Inr res, s1) \<and>
         process_outbox e m s =
           (case save_state e s1 of (Inl x, s2) \<Rightarrow> (Inl x, s2) | (Inr u, s2) \<Rightarrow> (Inr res, s2)))) \<and>
   (\<forall>i r str. (i, r) \<in> set (outbox_df s) \<and> Attempts r = PyStr str \<and> py_int_str str = None \<longrightarrow>
      (\<exists>x s' j r'. process_outbox e m s = (Inl x, s') \<and> (j, r') \<in> set (outbox_df s) \<and>
         py_int (Attempts r') = Inl x)) \<and>
   py_int_str [] = None \<and>
   (\<forall>str. ascii str \<and> (\<forall>c \<in> set str. \<not> is_digit c) \<longrightarrow> py_int_str str = None) \<and>
   (\<forall>df n. df ''Attempts'' = None \<longrightarrow> ensure_column df n ''Attempts'' = replicate n (PyStr []))"
proof (intro conjI)
  show "(\<exists>res s'. process_outbox e m s = (Inr res, s')) \<longrightarrow> integer_like (outbox_df s)"
    using process_outbox_converts by blast
  show "\<forall>x s'. process_outbox e m s = (Inl x, s') \<longrightarrow>
      (\<exists>i r. (i, r) \<in> set (outbox_df s) \<and> py_int (Attempts r) = Inl x) \<or>
      (\<exists>res s1. process_rows e m (outbox_df s) [] s = (Inr res, s1) \<and>
         save_state e s1 = (Inl x, s'))"
    using process_outbox_raises by blast
  show "integer_cells (outbox_df s) \<and> outbox_df s \<noteq> [] \<longrightarrow>
      (\<exists>res s1. process_rows e m (outbox_df s) [] s = (Inr res, s1) \<and>
         process_outbox e m s =
           (case save_state e s1 of (Inl x, s2) \<Rightarrow> (Inl x, s2) | (Inr u, s2) \<Rightarrow> (Inr res, s2)))"
  proof
    assume a: "integer_cells (outbox_df s) \<and> outbox_df s \<noteq> []"
    then have "integer_like (outbox_df s)" by (simp add: integer_cells_like)
    with process_rows_total[of "outbox_df s" e m "[]" s] obtain res s1 where
      loop: "process_rows e m (outbox_df s) [] s = (Inr res, s1)" by blast
    with a have "process_outbox e m s =
           (case save_state e s1 of (Inl x, s2) \<Rightarrow> (Inl x, s2) | (Inr u, s2) \<Rightarrow> (Inr res, s2))"
      by (simp add: process_outbox_def)
    with loop show "\<exists>res s1. process_rows e m (outbox_df s) [] s = (Inr res, s1) \<and>
         process_outbox e m s =
           (case save_state e s1 of (Inl x, s2) \<Rightarrow> (Inl x, s2) | (Inr u, s2) \<Rightarrow> (Inr res, s2))"
      by blast
  qed
  show "\<forall>i r str. (i, r) \<in> set (outbox_df s) \<and> Attempts r = PyStr str \<and> py_int_str str = None \<longrightarrow>
      (\<exists>x s' j r'. process_outbox e m s = (Inl x, s') \<and> (j, r') \<in> set (outbox_df s) \<and>
         py_int (Attempts r') = Inl x)"
  proof (intro allI impI)
    fix i r str
    assume a: "(i, r) \<in> set (outbox_df s) \<and> Attempts r = PyStr str \<and> py_int_str str = None"
    then have ne: "outbox_df s \<noteq> []" by auto
    from a have "\<not> integer_like (outbox_df s)"
      using integer_like_row[of "outbox_df s" i r] by auto
    obtain q s1 where loop: "process_rows e m (outbox_df s) [] s = (q, s1)" by fastforce
    show "\<exists>x s' j r'. process_outbox e m s = (Inl x, s') \<and> (j, r') \<in> set (outbox_df s) \<and>
         py_int (Attempts r') = Inl x"
    proof (cases q)
      case (Inl x)
      with loop ne have "process_outbox e m s = (Inl x, s1)" by (simp add: process_outbox_def)
      moreover from process_rows_Inl[of e m "outbox_df s" "[]" s x s1] loop Inl
      obtain j r' where "(j, r') \<in> set (outbox_df s)" "py_int (Attempts r') = Inl x" by auto
      ultimately show ?thesis by blast
    next
      case (Inr res)
      with loop process_rows_Inr[of e m "outbox_df s" "[]" s res s1]
        \<open>\<not> integer_like (outbox_df s)\<close> show ?thesis by simp
    qed
  qed
  show "py_int_str [] = None" by (simp add: py_int_str_def strip_def)
  show "\<forall>str. ascii str \<and> (\<forall>c \<in> set str. \<not> is_digit c) \<longrightarrow> py_int_str str = None"
    using py_int_str_no_digit by blast
  show "\<forall>df n. df ''Attempts'' = None \<longrightarrow> ensure_column df n ''Attempts'' = replicate n (PyStr [])"
    by (simp add: ensure_column_def)
qed

theorem drain_returns_iff_converts_and_saves_witness:
  "ascii_cells (outbox_df (demo_session [(0, demo_row ''sms'' (PyStr []) ''Pending'')] [])) \<and>
   (0, demo_row ''sms'' (PyStr []) ''Pending'')
      \<in> set (outbox_df (demo_session [(0, demo_row ''sms'' (PyStr []) ''Pending'')] [])) \<and>
   Attempts (demo_row ''sms'' (PyStr []) ''Pending'') = PyStr [] \<and> py_int_str [] = None \<and>
   (\<exists>s'. process_outbox scripted 3
            (demo_session [(0, demo_row ''sms'' (PyStr []) ''Pending'')] []) = (Inl ValueError, s')) \<and>
   ascii ''n/a'' \<and> py_int_str ''n/a'' = None \<and>
   ensure_column [''Recipient'' \<mapsto> [PyStr ''+254700000000'', PyStr ''+254711111111'']] 2 ''Attempts'' =
     [PyStr [], PyStr []] \<and>
   ascii_cells (outbox_df (demo_session [(0, demo_row ''sms'' (PyInt 0) ''Pending'')] [Inr ''SM1''])) \<and>
   integer_cells (outbox_df (demo_session [(0, demo_row ''sms'' (PyInt 0) ''Pending'')] [Inr ''SM1''])) \<and>
   (\<exists>res s1. process_rows scripted 3
                (outbox_df (demo_session [(0, demo_row ''sms'' (PyInt 0) ''Pending'')] [Inr ''SM1'']))
                [] (demo_session [(0, demo_row ''sms'' (PyInt 0) ''Pending'')] [Inr ''SM1'']) =
                (Inr res, s1) \<and>
      process_outbox scripted 3
        (demo_session [(0, demo_row ''sms'' (PyInt 0) ''Pending'')] [Inr ''SM1'']) = (Inr res, s1))"
proof -
  let ?s2 = "demo_session [(0, demo_row ''sms'' (PyInt 0) ''Pending'')] [Inr ''SM1'']"
  have g0: "ascii_cells (outbox_df ?s2)"
    by (simp add: ascii_cells_def demo_session_def demo_row_def)
  have g1: "integer_cells (outbox_df ?s2) \<and> outbox_df ?s2 \<noteq> []"
    by (simp add: integer_cells_def demo_session_def demo_row_def)
  from drain_returns_iff_converts_and_saves[OF g0, of scripted 3] g1 obtain res s1 where
    "process_rows scripted 3 (outbox_df ?s2) [] ?s2 = (Inr res, s1)"
    "process_outbox scripted 3 ?s2 =
       (case save_state scripted s1 of (Inl x, s2) \<Rightarrow> (Inl x, s2) | (Inr u, s2) \<Rightarrow> (Inr res, s2))"
    by blast
  then have g2: "\<exists>res s1. process_rows scripted 3 (outbox_df ?s2) [] ?s2 = (Inr res, s1) \<and>
      process_outbox scripted 3 ?s2 = (Inr res, s1)"
    by (simp add: save_state_scripted)
  let ?s = "demo_session [(0, demo_row ''sms'' (PyStr []) ''Pending'')] []"
  let ?df = "[''Recipient'' \<mapsto> [PyStr ''+254700000000'', PyStr ''+254711111111'']]"
  have h0: "ascii_cells (outbox_df ?s)"
    by (simp add: ascii_cells_def demo_session_def demo_row_def ascii_def)
  note t = drain_returns_iff_converts_and_saves[OF h0, of scripted 3]
  have h1: "(0, demo_row ''sms'' (PyStr []) ''Pending'') \<in> set (outbox_df ?s) \<and>
            Attempts (demo_row ''sms'' (PyStr []) ''Pending'') = PyStr [] \<and> py_int_str [] = None"
    using t by (simp add: demo_session_def demo_row_def)
  with t obtain x s' j r' where
    raise: "process_outbox scripted 3 ?s = (Inl x, s')" "(j, r') \<in> set (outbox_df ?s)"
      "py_int (Attempts r') = Inl x" by blast
  from raise(2) have "r' = demo_row ''sms'' (PyStr []) ''Pending''" by (simp add: demo_session_def)
  with raise(3) h1 have "x = ValueError" by simp
  with raise(1) have r: "\<exists>s'. process_outbox scripted 3 ?s = (Inl ValueError, s')" by blast
  have a: "ascii ''n/a'' \<and> (\<forall>c \<in> set ''n/a''. \<not> is_digit c)" by (simp add: ascii_def is_digit_def)
  with t have nd: "py_int_str ''n/a'' = None" by blast
  have "?df ''Attempts'' = None" by simp
  with t have "ensure_column ?df 2 ''Attempts'' = replicate 2 (PyStr [])" by blast
  then have "ensure_column ?df 2 ''Attempts'' = [PyStr [], PyStr []]"
    by (simp add: numeral_2_eq_2)
  with h0 h1 r a nd g0 g1 g2 show ?thesis by blast
qed

subsection \<open>Reachable outboxes\<close>

lemma within_budget_converts: "within_budget m r \<Longrightarrow> converts (Attempts r)"
  by (cases "Attempts r") (auto simp: within_budget_def converts_def)

lemma queue_inv_integer_like: "queue_inv m df \<Longrightarrow> integer_like df"
  by (auto simp: queue_inv_def integer_like_def list_all_iff dest: within_budget_converts)

lemma pass_within_budget:
  "pass m rs post res calls logs \<Longrightarrow> list_all (\<lambda>(i, r). within_budget m r) rs \<Longrightarrow>
     list_all (\<lambda>(i, r). within_budget m r) post"
proof (induction rule: pass.induct)
  case finished
  then show ?case by simp
next
  case (skip row a rs post res calls logs idx)
  then show ?case by (cases "Attempts row") (auto simp: within_budget_def)
next
  case (sent row a l rs post res calls logs idx info)
  then show ?case by simp
next
  case (failed row a rs post res calls logs idx info)
  then show ?case by (cases "Attempts row") (auto simp: within_budget_def)
qed

lemma queue_inv_drain:
  assumes "queue_inv m (outbox_df s)"
  shows "queue_inv m (outbox_df (snd (process_outbox e m s)))"
proof -
  from assms have d: "distinct (map fst (outbox_df s))" by (simp add: queue_inv_def)
  from process_outbox_after[OF queue_inv_integer_like[OF assms] d, of m e] obtain res calls logs
    where p: "pass m (outbox_df s) (outbox_df (snd (process_outbox e m s))) res calls logs"
    by blast
  from pass_distinct[OF p d] pass_within_budget[OF p] assms show ?thesis
    by (simp add: queue_inv_def)
qed

lemma queue_inv_enqueue:
  assumes "queue_inv m (outbox_df s)"
  shows "queue_inv m (outbox_df (add_to_outbox e recipient message language msg_type s))"
proof -
  have "distinct (map fst (enumerate 0 xs))" for xs :: "outbox_row list" by simp
  moreover have "list_all (\<lambda>(i, r). within_budget m r) (enumerate 0 xs)"
    if "list_all (within_budget m) xs" for xs
    using that by (auto simp: list_all_iff in_set_enumerate_eq)
  moreover have "list_all (within_budget m) (map snd (outbox_df s))"
    using assms by (auto simp: queue_inv_def list_all_iff)
  ultimately show ?thesis
    by (simp add: add_to_outbox_def concat_ignore_index_def queue_inv_def within_budget_def
        del: distinct_enumerate)
qed

lemma queue_inv_reset:
  assumes "queue_inv m (outbox_df s)"
  shows "queue_inv m (outbox_df (snd (retry_failed_only s)))"
proof -
  have eq: "outbox_df (snd (retry_failed_only s)) =
      map (\<lambda>(i, r). if Status r = ''Failed''
                      then (i, r\<lparr>Status := ''Pending'', Attempts := PyInt 0\<rparr>)
                      else (i, r)) (outbox_df s)"
    by (simp add: retry_failed_only_def Let_def mask_any_status_mask df_loc_reset none_failed_map)
  have "map fst (outbox_df (snd (retry_failed_only s))) = map fst (outbox_df s)"
    unfolding eq by (induction "outbox_df s") (auto simp: case_prod_unfold)
  moreover have "list_all (\<lambda>(i, r). within_budget m r) xs \<Longrightarrow>
      list_all (\<lambda>(i, r). within_budget m r)
        (map (\<lambda>(i, r). if Status r = ''Failed''
                      then (i, r\<lparr>Status := ''Pending'', Attempts := PyInt 0\<rparr>)
                      else (i, r)) xs)" for xs :: outbox
    by (induction xs) (auto simp: within_budget_def split: if_splits)
  then have "list_all (\<lambda>(i, r). within_budget m r) (outbox_df (snd (retry_failed_only s)))"
    unfolding eq using assms by (simp add: queue_inv_def)
  ultimately show ?thesis using assms by (simp add: queue_inv_def)
qed

lemma queue_inv_purge:
  assumes "queue_inv m (outbox_df s)"
  shows "queue_inv m (outbox_df (snd (clear_all_failed s)))"
proof -
  have eq: "outbox_df (snd (clear_all_failed s)) =
      filter (\<lambda>(i, r). Status r \<noteq> ''Failed'') (outbox_df s)"
    by (simp add: clear_all_failed_def Let_def mask_any_status_mask df_not_mask_status_mask
        none_failed_filter)
  show ?thesis unfolding eq using assms
    by (auto simp: queue_inv_def list_all_iff distinct_map_filter)
qed

lemma queue_inv_run:
  "queue_inv m (outbox_df s) \<Longrightarrow> queue_inv m (outbox_df (run e m ops s))"
proof (induction ops arbitrary: s)
  case Nil
  then show ?case by simp
next
  case (Cons x xs)
  have "queue_inv m (outbox_df (apply_op e m x s))"
    using Cons.prems
    by (cases x) (simp_all add: queue_inv_enqueue queue_inv_drain queue_inv_reset queue_inv_purge)
  from Cons.IH[OF this] show ?case by simp
qed

text \<open>
  C5. Starting from an empty outbox, after any sequence of \<^verbatim>\<open>add_to_outbox\<close>,
  \<^verbatim>\<open>process_outbox\<close> with one fixed \<open>max_attempts\<close>, Retry Failed Only and Clear All
  Failed, every row whose Status is Retrying has an integer Attempts of at least 1 and
  less than \<open>max_attempts\<close>.
\<close>

theorem retrying_entries_within_budget:
  assumes "outbox_df s0 = []"
    and "(idx, row) \<in> set (outbox_df (run e m ops s0))"
    and "Status row = ''Retrying''"
  shows "\<exists>a. Attempts row = PyInt a \<and> 1 \<le> a \<and> a < m"
proof -
  have "queue_inv m (outbox_df s0)" using assms(1) by (simp add: queue_inv_def)
  from queue_inv_run[OF this, of e ops] assms(2) have "within_budget m row"
    by (auto simp: queue_inv_def list_all_iff)
  with assms(3) show ?thesis by (cases "Attempts row") (auto simp: within_budget_def)
qed

lemma enqueue_demo:
  "add_to_outbox scripted ''+254700000000'' ''Karibu SHA'' ''Swahili'' ''sms'' (demo_session [] w) =
     demo_session [(0, demo_row ''sms'' (PyInt 0) ''Pending'')] w"
  by (simp add: add_to_outbox_def demo_session_def demo_row_def concat_ignore_index_def
      enumerate_eq_zip scripted_def)

theorem retrying_entries_within_budget_witness:
  "outbox_df (demo_session [] [Inl (TwilioException ''rejected'')]) = [] \<and>
   (0, demo_row ''sms'' (PyInt 1) ''Retrying'')
      \<in> set (outbox_df (run scripted 3
            [Enqueue ''+254700000000'' ''Karibu SHA'' ''Swahili'' ''sms'', Drain]
            (demo_session [] [Inl (TwilioException ''rejected'')]))) \<and>
   Status (demo_row ''sms'' (PyInt 1) ''Retrying'') = ''Retrying'' \<and>
   (\<exists>a. Attempts (demo_row ''sms'' (PyInt 1) ''Retrying'') = PyInt a \<and> 1 \<le> a \<and> a < 3)"
proof -
  let ?s0 = "demo_session [] [Inl (TwilioException ''rejected'')]"
  let ?ops = "[Enqueue ''+254700000000'' ''Karibu SHA'' ''Swahili'' ''sms'', Drain]"
  have h1: "outbox_df ?s0 = []" by (simp add: demo_session_def)
  have h2: "(0, demo_row ''sms'' (PyInt 1) ''Retrying'') \<in> set (outbox_df (run scripted 3 ?ops ?s0))"
    by (simp add: enqueue_demo drain_one_failure)
  have h3: "Status (demo_row ''sms'' (PyInt 1) ''Retrying'') = ''Retrying''"
    by (simp add: demo_row_def)
  from retrying_entries_within_budget[OF h1 h2 h3] h1 h2 h3 show ?thesis by blast
qed

subsection \<open>The conversion on examples\<close>

lemma py_int_examples:
  "py_int (PyStr [CHR 0x1F, CHR ''5'']) = Inl ValueError"
  "py_int (PyStr '' 42 '') = Inr 42"
  "py_int (PyStr ''-1_000'') = Inr (- 1000)"
  "py_int (PyStr ''1.5'') = Inl ValueError"
  "py_int (PyStr ''5_'') = Inl ValueError"
  "py_int (PyFloat 1.5) = Inr 1"
  "py_int (PyFloat (- 1.5)) = Inr (- 1)"
  "py_int (PyBool True) = Inr 1"
  by (simp_all add: py_int_str_def strip_def is_space_def is_digit_def digit_val_def)

lemma py_int_str_digit_limit: "py_int_str (replicate 4301 CHR ''1'') = None"
proof -
  have "filter is_digit (replicate 4301 CHR ''1'') = replicate 4301 CHR ''1''"
    by (simp add: is_digit_def)
  moreover have "strip (replicate 4301 CHR ''1'') = replicate 4301 CHR ''1''"
    by (simp add: strip_def is_space_def dropWhile_eq_self_iff)
  ultimately show ?thesis by (simp add: py_int_str_def Let_def)
qed

end
